theory Spec2Isabelle
  imports Complex_Main "HOL-Library.Multiset"
begin

section \<open>JavaScript values used by the pipeline\<close>

text \<open>
  The development embeds \<^verbatim>\<open>backend/src/utils/rag.new.js\<close> (tokenizer, word
  frequencies, cosine similarity, \<^verbatim>\<open>RAGPipeline.addDocuments\<close> and
  \<^verbatim>\<open>RAGPipeline.query\<close>) and the pipeline of the sibling module
  \<^verbatim>\<open>utils/rag\<close>, whose text is held in
  \<^verbatim>\<open>backend/src/scripts/seedDatabase.js\<close> from line 208 on.

  Scope of the embedding.
  \<^item> A JavaScript string is a \<open>string\<close>; a \<open>char\<close> stands for one UTF-16 code
    unit below 256 (Latin-1), so \<open>length\<close> and \<open>take\<close> count what
    \<^verbatim>\<open>.length\<close> and \<^verbatim>\<open>.substring\<close> count.
  \<^item> A JavaScript number is \<open>NaN\<close> or the real number it denotes; every
    arithmetic operation rounds its exact result to the nearest binary64 value,
    ties to even. The exponent range is not bounded: word counts, their sums of
    squares and the quotients formed from them stay far inside the range of
    normal doubles.
  \<^item> A word-frequency object is a list of (key, value) pairs in insertion order
    with no key twice, on top of the properties every object literal inherits
    from \<^verbatim>\<open>Object.prototype\<close>: \<^verbatim>\<open>freq[word]\<close> reads an own property, else an
    inherited one, else \<^verbatim>\<open>undefined\<close>.
\<close>

subsection \<open>Binary64 rounding\<close>

definition pow2 :: "int \<Rightarrow> real" where
  "pow2 e = (if 0 \<le> e then 2 ^ nat e else 1 / 2 ^ nat (- e))"

text \<open>Number of binary digits of a natural number.\<close>

fun bits :: "nat \<Rightarrow> nat" where
  "bits n = (if n = 0 then 0 else Suc (bits (n div 2)))"

declare bits.simps [simp del]

text \<open>
  The exponent \<open>e\<close> with \<open>2^e \<le> x < 2^(e+1)\<close>, for positive \<open>x\<close>: one less than the
  number of bits of the floor when \<open>1 \<le> x\<close>, and below 1 the least \<open>c\<close> with
  \<open>1 / x \<le> 2^c\<close>, negated.
\<close>

definition ilog2 :: "real \<Rightarrow> int" where
  "ilog2 x =
     (if 1 \<le> x then int (bits (nat \<lfloor>x\<rfloor>)) - 1
      else - int (bits (nat (\<lceil>1 / x\<rceil> - 1))))"

text \<open>Nearest integer, a tie going to the even neighbour; \<open>f\<close> is the floor.\<close>

definition nearest_even :: "real \<Rightarrow> int \<Rightarrow> int" where
  "nearest_even x f =
     (if x - of_int f < 1 / 2 then f
      else if 1 / 2 < x - of_int f then f + 1
      else if even f then f else f + 1)"

definition round_half_even :: "real \<Rightarrow> int" where
  "round_half_even x = nearest_even x \<lfloor>x\<rfloor>"

text \<open>
  Rounding to the nearest double: 53 significant bits, ties to even. \<open>u\<close> is the
  unit in the last place of the binade of \<open>x\<close>.
\<close>

definition round_to_ulp :: "real \<Rightarrow> real \<Rightarrow> real" where
  "round_to_ulp x u = sgn x * of_int (round_half_even (\<bar>x\<bar> / u)) * u"

definition to_double :: "real \<Rightarrow> real" where
  "to_double x = (if x = 0 then 0 else round_to_ulp x (pow2 (ilog2 \<bar>x\<bar> - 52)))"

definition fadd :: "real \<Rightarrow> real \<Rightarrow> real" where
  "fadd x y = to_double (x + y)"

definition fmul :: "real \<Rightarrow> real \<Rightarrow> real" where
  "fmul x y = to_double (x * y)"

definition fdiv :: "real \<Rightarrow> real \<Rightarrow> real" where
  "fdiv x y = to_double (x / y)"

text \<open>Integer square root, two bits at a time.\<close>

definition isqrt_step :: "nat \<Rightarrow> nat \<Rightarrow> nat" where
  "isqrt_step n r = (if (2 * r + 1) * (2 * r + 1) \<le> n then 2 * r + 1 else 2 * r)"

fun isqrt :: "nat \<Rightarrow> nat" where
  "isqrt n = (if n = 0 then 0 else isqrt_step n (isqrt (n div 4)))"

declare isqrt.simps [simp del]

text \<open>
  \<^verbatim>\<open>Math.sqrt\<close>: the correctly rounded square root. With \<open>y\<close> the argument scaled
  by a power of 4 into \<open>[2^104, 2^106)\<close> and \<open>s\<close> the integer square root of its
  floor, the significand is \<open>s\<close> or \<open>s + 1\<close>, whichever is nearer to the root of
  \<open>y\<close>. The argument is a sum of squares, so it is never negative; the model
  returns 0 there.
\<close>

definition nearest_root :: "real \<Rightarrow> int \<Rightarrow> int" where
  "nearest_root y s =
     (if y < (of_int s + 1 / 2) * (of_int s + 1 / 2) then s
      else if (of_int s + 1 / 2) * (of_int s + 1 / 2) < y then s + 1
      else if even s then s else s + 1)"

definition sqrt_scaled :: "real \<Rightarrow> real" where
  "sqrt_scaled y = of_int (nearest_root y (int (isqrt (nat \<lfloor>y\<rfloor>))))"

definition sqrt_at :: "real \<Rightarrow> int \<Rightarrow> real" where
  "sqrt_at x t = sqrt_scaled (x / pow2 (2 * t)) * pow2 t"

definition fsqrt :: "real \<Rightarrow> real" where
  "fsqrt x = (if x \<le> 0 then 0 else sqrt_at x (ilog2 x div 2 - 52))"


subsection \<open>Strings\<close>

definition is_word :: "char \<Rightarrow> bool" where
  \<comment> \<open>the class \<^verbatim>\<open>\w\<close>\<close>
  "is_word c =
     (c \<in> set ''abcdefghijklmnopqrstuvwxyzABCDEFGHIJKLMNOPQRSTUVWXYZ0123456789_'')"

definition is_space :: "char \<Rightarrow> bool" where
  \<comment> \<open>the class \<^verbatim>\<open>\s\<close> below 256: tab, line feed, vertical tab, form feed,
      carriage return, space, no-break space\<close>
  "is_space c =
     (c \<in> {CHR 0x09, CHR 0x0A, CHR 0x0B, CHR 0x0C, CHR 0x0D, CHR 0x20, CHR 0xA0})"

text \<open>
  \<^verbatim>\<open>toLowerCase\<close> on a code unit below 256: A-Z, and the Latin-1 capitals 0xC0-0xDE
  other than the multiplication sign 0xD7, move up by 0x20.
\<close>

definition capitals :: string where
  "capitals = ''ABCDEFGHIJKLMNOPQRSTUVWXYZ'' @
     [CHR 0xC0, CHR 0xC1, CHR 0xC2, CHR 0xC3, CHR 0xC4, CHR 0xC5, CHR 0xC6, CHR 0xC7,
      CHR 0xC8, CHR 0xC9, CHR 0xCA, CHR 0xCB, CHR 0xCC, CHR 0xCD, CHR 0xCE, CHR 0xCF,
      CHR 0xD0, CHR 0xD1, CHR 0xD2, CHR 0xD3, CHR 0xD4, CHR 0xD5, CHR 0xD6, CHR 0xD8,
      CHR 0xD9, CHR 0xDA, CHR 0xDB, CHR 0xDC, CHR 0xDD, CHR 0xDE]"

definition smalls :: string where
  "smalls = ''abcdefghijklmnopqrstuvwxyz'' @
     [CHR 0xE0, CHR 0xE1, CHR 0xE2, CHR 0xE3, CHR 0xE4, CHR 0xE5, CHR 0xE6, CHR 0xE7,
      CHR 0xE8, CHR 0xE9, CHR 0xEA, CHR 0xEB, CHR 0xEC, CHR 0xED, CHR 0xEE, CHR 0xEF,
      CHR 0xF0, CHR 0xF1, CHR 0xF2, CHR 0xF3, CHR 0xF4, CHR 0xF5, CHR 0xF6, CHR 0xF8,
      CHR 0xF9, CHR 0xFA, CHR 0xFB, CHR 0xFC, CHR 0xFD, CHR 0xFE]"

definition lower_char :: "char \<Rightarrow> char" where
  "lower_char c = (case map_of (zip capitals smalls) c of None \<Rightarrow> c | Some l \<Rightarrow> l)"

definition toLowerCase :: "string \<Rightarrow> string" where
  "toLowerCase s = map lower_char s"

definition replace_punct :: "string \<Rightarrow> string" where
  \<comment> \<open>\<^verbatim>\<open>.replace(/[^\w\s]/g, ' ')\<close>\<close>
  "replace_punct s = map (\<lambda>c. if is_word c \<or> is_space c then c else CHR '' '') s"

text \<open>
  \<^verbatim>\<open>.split(/\s+/)\<close>: the pieces between the runs of white space, an empty piece
  before a leading run and after a trailing one.
\<close>

function split_ws :: "string \<Rightarrow> string list" where
  "split_ws s =
     (if dropWhile (\<lambda>c. \<not> is_space c) s = [] then [takeWhile (\<lambda>c. \<not> is_space c) s]
      else takeWhile (\<lambda>c. \<not> is_space c) s
           # split_ws (dropWhile is_space (dropWhile (\<lambda>c. \<not> is_space c) s)))"
  by pat_completeness auto

lemma dropWhile_space_shorter:
  "dropWhile (\<lambda>c. \<not> is_space c) s \<noteq> [] \<Longrightarrow>
   length (dropWhile is_space (dropWhile (\<lambda>c. \<not> is_space c) s)) < length s"
proof -
  assume ne: "dropWhile (\<lambda>c. \<not> is_space c) s \<noteq> []"
  define r where "r = dropWhile (\<lambda>c. \<not> is_space c) s"
  from ne obtain c cs where r: "r = c # cs"
    by (cases r) (auto simp: r_def)
  have "is_space c"
    using hd_dropWhile [of "\<lambda>c. \<not> is_space c" s] ne r by (simp add: r_def)
  then have "length (dropWhile is_space r) \<le> length cs"
    by (simp add: r length_dropWhile_le)
  moreover have "length r \<le> length s"
    by (simp add: r_def length_dropWhile_le)
  ultimately show ?thesis
    by (simp add: r_def [symmetric] r)
qed

termination split_ws
proof (relation "measure length")
  show "wf (measure length)" by simp
next
  fix s :: string
  assume "dropWhile (\<lambda>c. \<not> is_space c) s \<noteq> []"
  from dropWhile_space_shorter [OF this]
  show "(dropWhile is_space (dropWhile (\<lambda>c. \<not> is_space c) s), s) \<in> measure length"
    by simp
qed

declare split_ws.simps [simp del]

definition tokenize :: "string \<Rightarrow> string list" where
  "tokenize text_in =
     (if text_in = [] then []
      else filter (\<lambda>word. 2 < length word) (split_ws (replace_punct (toLowerCase text_in))))"

text \<open>\<^verbatim>\<open>x || d\<close> on an optional string: the default replaces a missing or empty one.\<close>

definition falsy :: "string option \<Rightarrow> bool" where
  "falsy x = (x = None \<or> x = Some [])"

definition or_else :: "string option \<Rightarrow> string \<Rightarrow> string" where
  "or_else x d = (case x of None \<Rightarrow> d | Some v \<Rightarrow> if v = [] then d else v)"

text \<open>Decimal digits of a natural number, as \<^verbatim>\<open>String(n)\<close> writes them.\<close>

definition digit_char :: "nat \<Rightarrow> char" where
  "digit_char d = ''0123456789'' ! d"

fun decimal :: "nat \<Rightarrow> string" where
  "decimal n = (if n < 10 then [digit_char n] else decimal (n div 10) @ [digit_char (n mod 10)])"

declare decimal.simps [simp del]

text \<open>
  \<^verbatim>\<open>x.toFixed(1)\<close> for \<open>x\<close> below \<open>10^21\<close>: the integer \<open>n\<close> nearest to \<open>10 x\<close>,
  the larger one of two, written with one digit after the point.
\<close>

definition toFixed1 :: "real \<Rightarrow> string" where
  "toFixed1 x =
     (if x < 0 then ''-'' else []) @
     decimal (nat \<lfloor>\<bar>x\<bar> * 10 + 1 / 2\<rfloor> div 10) @ ''.'' @
     decimal (nat \<lfloor>\<bar>x\<bar> * 10 + 1 / 2\<rfloor> mod 10)"

subsection \<open>Numbers\<close>

text \<open>
  A number is a double or \<^verbatim>\<open>NaN\<close>. An operation with a \<^verbatim>\<open>NaN\<close> operand gives
  \<^verbatim>\<open>NaN\<close>, and so does the square root of a negative number; a comparison with
  \<^verbatim>\<open>NaN\<close> is false.
\<close>

datatype number = Num real | NaN

fun add :: "number \<Rightarrow> number \<Rightarrow> number" where
  "add (Num x) (Num y) = Num (fadd x y)"
| "add _ _ = NaN"

fun mul :: "number \<Rightarrow> number \<Rightarrow> number" where
  "mul (Num x) (Num y) = Num (fmul x y)"
| "mul _ _ = NaN"

fun square_root :: "number \<Rightarrow> number" where
  "square_root (Num x) = (if x < 0 then NaN else Num (fsqrt x))"
| "square_root NaN = NaN"

fun positive :: "number \<Rightarrow> bool" where
  \<comment> \<open>\<^verbatim>\<open>x > 0\<close>\<close>
  "positive (Num x) = (0 < x)"
| "positive NaN = False"

fun is_num :: "number \<Rightarrow> bool" where
  "is_num (Num x) = True"
| "is_num NaN = False"

fun num_value :: "number \<Rightarrow> real" where
  "num_value (Num x) = x"
| "num_value NaN = 0"

subsection \<open>Word-frequency objects\<close>

text \<open>
  The object \<^verbatim>\<open>{}\<close> that \<^verbatim>\<open>getWordFreq\<close> starts from inherits the properties of
  \<^verbatim>\<open>Object.prototype\<close>: eleven functions and the accessor \<^verbatim>\<open>__proto__\<close>, whose
  getter gives \<^verbatim>\<open>Object.prototype\<close> itself and whose setter ignores a value that
  is neither an object nor \<^verbatim>\<open>null\<close>.
\<close>

datatype builtin =
  Constructor | DefineGetter | DefineSetter | HasOwnProperty | LookupGetter | LookupSetter
  | IsPrototypeOf | PropertyIsEnumerable | ToString | ToLocaleString | ValueOf | Proto

definition builtins :: "(string \<times> builtin) list" where
  "builtins =
     [(''constructor'', Constructor), (''__defineGetter__'', DefineGetter),
      (''__defineSetter__'', DefineSetter), (''hasOwnProperty'', HasOwnProperty),
      (''__lookupGetter__'', LookupGetter), (''__lookupSetter__'', LookupSetter),
      (''isPrototypeOf'', IsPrototypeOf), (''propertyIsEnumerable'', PropertyIsEnumerable),
      (''toString'', ToString), (''toLocaleString'', ToLocaleString),
      (''valueOf'', ValueOf), (''__proto__'', Proto)]"

definition inherited :: "string \<Rightarrow> builtin option" where
  "inherited word = map_of builtins word"



text \<open>
  The values \<^verbatim>\<open>getWordFreq\<close> stores: a count, or the string that
  \<^verbatim>\<open>(freq[word] || 0) + 1\<close> makes from an inherited value, the text of that value
  followed by one \<^verbatim>\<open>1\<close> for each occurrence of the word so far.
\<close>

datatype js_value = Count nat | Stringified builtin nat


type_synonym freq = "(string \<times> js_value) list"

datatype property = Own js_value | Inherited builtin | Missing

definition lookup :: "freq \<Rightarrow> string \<Rightarrow> property" where
  \<comment> \<open>\<^verbatim>\<open>vec[word]\<close>\<close>
  "lookup vec word =
     (case map_of vec word of
        Some v \<Rightarrow> Own v
      | None \<Rightarrow> (case inherited word of Some b \<Rightarrow> Inherited b | None \<Rightarrow> Missing))"

text \<open>
  \<^verbatim>\<open>vec[word] || 0\<close> as the multiplications read it: a count is itself, a missing
  property is 0, and a string or an inherited function or object, all of them
  truthy, converts to \<^verbatim>\<open>NaN\<close>.
\<close>

definition entry :: "freq \<Rightarrow> string \<Rightarrow> number" where
  "entry vec word =
     (case lookup vec word of
        Own (Count c) \<Rightarrow> Num (real c)
      | Own (Stringified b n) \<Rightarrow> NaN
      | Inherited b \<Rightarrow> NaN
      | Missing \<Rightarrow> Num 0)"

fun store_own :: "freq \<Rightarrow> string \<Rightarrow> js_value \<Rightarrow> freq" where
  \<comment> \<open>an existing key keeps its place, a new one goes last\<close>
  "store_own [] word v = [(word, v)]"
| "store_own ((w, u) # rest) word v =
     (if w = word then (w, v) # rest else (w, u) # store_own rest word v)"

definition assign :: "freq \<Rightarrow> string \<Rightarrow> js_value \<Rightarrow> freq" where
  \<comment> \<open>\<^verbatim>\<open>freq[word] = v\<close>: with no own property \<^verbatim>\<open>__proto__\<close> the inherited setter
      runs, and it ignores a number or a string\<close>
  "assign fr word v =
     (if word = ''__proto__'' \<and> map_of fr word = None then fr else store_own fr word v)"

definition incremented :: "property \<Rightarrow> js_value" where
  \<comment> \<open>\<^verbatim>\<open>(freq[word] || 0) + 1\<close>: a count of 0 is falsy and counts as 0; a string or
      an inherited value is concatenated with \<^verbatim>\<open>1\<close>\<close>
  "incremented p =
     (case p of
        Own (Count c) \<Rightarrow> Count (c + 1)
      | Own (Stringified b n) \<Rightarrow> Stringified b (n + 1)
      | Inherited b \<Rightarrow> Stringified b 1
      | Missing \<Rightarrow> Count 1)"

definition count_word :: "freq \<Rightarrow> string \<Rightarrow> freq" where
  \<comment> \<open>the body of the \<^verbatim>\<open>reduce\<close> callback\<close>
  "count_word fr word = assign fr word (incremented (lookup fr word))"

definition getWordFreq :: "string list \<Rightarrow> freq" where
  "getWordFreq tokens = foldl count_word [] tokens"

text \<open>
  \<^verbatim>\<open>Object.keys\<close>: the keys that are array indices (canonical decimal numerals
  below \<open>2^32 - 1\<close>) in ascending numeric order, then the other keys in insertion
  order.
\<close>

definition digits_value :: "string \<Rightarrow> nat" where
  "digits_value w = foldl (\<lambda>n c. 10 * n + (of_char c - 48)) 0 w"

definition is_index :: "string \<Rightarrow> bool" where
  "is_index w =
     (w \<noteq> [] \<and> list_all (\<lambda>c. c \<in> set ''0123456789'') w \<and>
      (w = ''0'' \<or> hd w \<noteq> CHR ''0'') \<and> digits_value w < 4294967295)"

definition object_keys :: "freq \<Rightarrow> string list" where
  "object_keys vec =
     sort_key digits_value (filter is_index (map fst vec)) @
     filter (\<lambda>w. \<not> is_index w) (map fst vec)"

subsection \<open>Cosine similarity\<close>

definition cosine_step ::
  "freq \<Rightarrow> freq \<Rightarrow> number \<times> number \<times> number \<Rightarrow> string \<Rightarrow> number \<times> number \<times> number" where
  \<comment> \<open>the body of \<^verbatim>\<open>for (const word of words)\<close> on (dotProduct, normA, normB)\<close>
  "cosine_step vecA vecB acc word =
     (case acc of (dotProduct, normA, normB) \<Rightarrow>
        (add dotProduct (mul (entry vecA word) (entry vecB word)),
         add normA (mul (entry vecA word) (entry vecA word)),
         add normB (mul (entry vecB word) (entry vecB word))))"

definition all_words :: "freq \<Rightarrow> freq \<Rightarrow> string list" where
  \<comment> \<open>\<^verbatim>\<open>new Set([...Object.keys(vecA), ...Object.keys(vecB)])\<close> in iteration order\<close>
  "all_words vecA vecB =
     object_keys vecA @ filter (\<lambda>w. w \<notin> set (object_keys vecA)) (object_keys vecB)"

text \<open>
  \<^verbatim>\<open>dotProduct / divisor\<close>. The divisor of \<^verbatim>\<open>cosineSimilarity\<close> is \<^verbatim>\<open>NaN\<close> or a
  positive double, never 0 (lemma \<open>divisor_positive\<close> below).
\<close>

fun quotient :: "number \<Rightarrow> number \<Rightarrow> number" where
  "quotient (Num x) (Num y) = Num (fdiv x y)"
| "quotient _ _ = NaN"

definition divisor :: "number \<Rightarrow> number \<Rightarrow> number" where
  \<comment> \<open>\<^verbatim>\<open>Math.sqrt(normA) * Math.sqrt(normB)\<close>\<close>
  "divisor normA normB = mul (square_root normA) (square_root normB)"

definition cosine_result :: "number \<times> number \<times> number \<Rightarrow> number" where
  \<comment> \<open>\<^verbatim>\<open>normA === 0 || normB === 0 ? 0 : dotProduct / (...)\<close>\<close>
  "cosine_result acc =
     (case acc of (dotProduct, normA, normB) \<Rightarrow>
        if normA = Num 0 \<or> normB = Num 0 then Num 0
        else quotient dotProduct (divisor normA normB))"

definition accumulate :: "freq \<Rightarrow> freq \<Rightarrow> number \<times> number \<times> number" where
  \<comment> \<open>(dotProduct, normA, normB) when the loop is left\<close>
  "accumulate vecA vecB =
     foldl (cosine_step vecA vecB) (Num 0, Num 0, Num 0) (all_words vecA vecB)"

definition cosineSimilarity :: "freq \<Rightarrow> freq \<Rightarrow> number" where
  "cosineSimilarity vecA vecB = cosine_result (accumulate vecA vecB)"








section \<open>The in-memory pipeline of rag.new.js\<close>

subsection \<open>Documents and the store\<close>

record metadata =
  title :: string
  url :: string
  publishedAt :: string
  source :: string

record document =
  doc_text :: string
  metadata :: metadata

text \<open>
  An element of the array handed to \<^verbatim>\<open>addDocuments\<close>: every property may be
  missing.
\<close>

record article =
  in_text :: "string option"
  in_title :: "string option"
  in_url :: "string option"
  in_publishedAt :: "string option"
  in_source :: "string option"

record pipeline =
  documents :: "document list"
  documentVectors :: "freq list"
  initialized :: bool

definition constructor :: pipeline where
  "constructor = \<lparr>documents = [], documentVectors = [], initialized = False\<rparr>"

definition initialize :: "pipeline \<Rightarrow> pipeline" where
  "initialize s = (if initialized s then s else s\<lparr>initialized := True\<rparr>)"

text \<open>
  The body of \<^verbatim>\<open>for (const doc of documents)\<close>; \<open>now\<close> is what
  \<^verbatim>\<open>new Date().toISOString()\<close> gives at that moment.
\<close>

definition make_document :: "string \<Rightarrow> article \<Rightarrow> document" where
  "make_document now doc =
     \<lparr>doc_text = or_else (in_text doc) [],
      metadata = \<lparr>title = or_else (in_title doc) [],
                  url = or_else (in_url doc) [],
                  publishedAt = or_else (in_publishedAt doc) now,
                  source = or_else (in_source doc) ''unknown''\<rparr>\<rparr>"

definition add_document :: "string \<Rightarrow> pipeline \<Rightarrow> article \<Rightarrow> pipeline" where
  "add_document now s doc =
     (if falsy (in_text doc) \<or> falsy (in_title doc) then s
      else s\<lparr>documents := documents s @ [make_document now doc],
             documentVectors := documentVectors s
               @ [getWordFreq (tokenize (doc_text (make_document now doc)))]\<rparr>)"

fun add_loop :: "(nat \<Rightarrow> string) \<Rightarrow> nat \<Rightarrow> pipeline \<Rightarrow> article list \<Rightarrow> pipeline" where
  "add_loop clock i s [] = s"
| "add_loop clock i s (doc # rest) = add_loop clock (Suc i) (add_document (clock i) s doc) rest"

text \<open>
  \<^verbatim>\<open>addDocuments\<close> returns \<^verbatim>\<open>true\<close>. \<open>clock i\<close> is the time read while the
  \<open>i\<close>-th element is handled.
\<close>

definition addDocuments :: "(nat \<Rightarrow> string) \<Rightarrow> pipeline \<Rightarrow> article list \<Rightarrow> bool \<times> pipeline" where
  "addDocuments clock s docs = (True, add_loop clock 0 (initialize s) docs)"

subsection \<open>Retrieval\<close>

record candidate =
  index :: nat
  score :: number

record source_doc =
  content :: string
  src_metadata :: metadata

datatype js_error = Error (message: "string option")

definition scores_of :: "freq \<Rightarrow> freq list \<Rightarrow> candidate list" where
  \<comment> \<open>\<^verbatim>\<open>for (let i = 0; i < this.documentVectors.length; i++)\<close>\<close>
  "scores_of queryVector vecs =
     map (\<lambda>i. \<lparr>index = i, score = cosineSimilarity queryVector (vecs ! i)\<rparr>) [0..<length vecs]"

text \<open>
  \<^verbatim>\<open>.sort((a, b) => b.score - a.score)\<close>. The sort is stable, and a comparator
  result \<^verbatim>\<open>NaN\<close> counts as 0. With numbers only the result is the stable
  descending order. With a \<^verbatim>\<open>NaN\<close> among equal numbers every comparison gives 0
  and the order is kept. With a \<^verbatim>\<open>NaN\<close> among numbers that differ the
  comparator is not consistent and the order is left to the implementation:
  \<open>engine\<close> is that choice, a permutation of its argument (a function that
  gives anything else is no sort, and the order is then kept).
\<close>

definition all_equal :: "real list \<Rightarrow> bool" where
  "all_equal xs = (case xs of [] \<Rightarrow> True | x # rest \<Rightarrow> list_all (\<lambda>y. y = x) rest)"

definition sort_by_score ::
  "(candidate list \<Rightarrow> candidate list) \<Rightarrow> candidate list \<Rightarrow> candidate list" where
  "sort_by_score engine scores =
     (if list_all (\<lambda>item. is_num (score item)) scores
        then sort_key (\<lambda>item. - num_value (score item)) scores
      else if all_equal (map (\<lambda>item. num_value (score item))
                (filter (\<lambda>item. is_num (score item)) scores))
        then scores
      else if mset (engine scores) = mset scores then engine scores
      else scores)"

definition top_k ::
  "(candidate list \<Rightarrow> candidate list) \<Rightarrow> nat \<Rightarrow> candidate list \<Rightarrow> candidate list" where
  \<comment> \<open>\<^verbatim>\<open>.sort(...).slice(0, k).filter(item => item.score > 0)\<close>\<close>
  "top_k engine k scores =
     filter (\<lambda>item. positive (score item)) (take k (sort_by_score engine scores))"

definition topK_of ::
  "(candidate list \<Rightarrow> candidate list) \<Rightarrow> pipeline \<Rightarrow> string \<Rightarrow> nat \<Rightarrow> candidate list" where
  "topK_of engine s queryText k =
     top_k engine k (scores_of (getWordFreq (tokenize queryText)) (documentVectors s))"

text \<open>
  \<^verbatim>\<open>this.documents[item.index]\<close>: reading a property of a missing element throws
  a TypeError.
\<close>

definition undefined_text :: js_error where
  "undefined_text = Error (Some (''Cannot read properties of undefined (reading ''
     @ [CHR 0x27] @ ''text'' @ [CHR 0x27] @ '')''))"

definition source_of :: "document list \<Rightarrow> candidate \<Rightarrow> js_error + source_doc" where
  "source_of docs item =
     (if index item < length docs
      then Inr \<lparr>content = doc_text (docs ! index item), src_metadata = metadata (docs ! index item)\<rparr>
      else Inl undefined_text)"

fun map_throwing :: "('a \<Rightarrow> js_error + 'b) \<Rightarrow> 'a list \<Rightarrow> js_error + 'b list" where
  "map_throwing f [] = Inr []"
| "map_throwing f (x # xs) =
     (case f x of
        Inl e \<Rightarrow> Inl e
      | Inr y \<Rightarrow> (case map_throwing f xs of Inl e \<Rightarrow> Inl e | Inr ys \<Rightarrow> Inr (y # ys)))"

definition sourceDocs_of :: "pipeline \<Rightarrow> candidate list \<Rightarrow> js_error + source_doc list" where
  "sourceDocs_of s topK = map_throwing (source_of (documents s)) topK"

subsection \<open>Context, fallback answer and prompt\<close>

definition join :: "string \<Rightarrow> string list \<Rightarrow> string" where
  "join sep parts = (case parts of [] \<Rightarrow> [] | p # ps \<Rightarrow> p @ concat (map (\<lambda>q. sep @ q) ps))"

definition percent :: "number \<Rightarrow> string" where
  \<comment> \<open>\<^verbatim>\<open>(item.score * 100).toFixed(1)\<close>\<close>
  "percent x = (case mul x (Num 100) of Num y \<Rightarrow> toFixed1 y | NaN \<Rightarrow> ''NaN'')"

definition context_block :: "document list \<Rightarrow> candidate \<Rightarrow> string" where
  "context_block docs item =
     ''Title: '' @ title (metadata (docs ! index item)) @ [CHR 0x0A] @
     ''Relevance: '' @ percent (score item) @ ''%'' @ [CHR 0x0A] @
     ''Content: '' @ take 200 (doc_text (docs ! index item)) @ ''...''"

definition context_of :: "pipeline \<Rightarrow> candidate list \<Rightarrow> string" where
  \<comment> \<open>evaluated after \<open>sourceDocs_of\<close> has read every \<open>documents[item.index]\<close>\<close>
  "context_of s topK = join [CHR 0x0A, CHR 0x0A] (map (context_block (documents s)) topK)"

definition fallback_text :: "source_doc \<Rightarrow> string" where
  "fallback_text topDoc =
     ''Based on the article '' @ [CHR 0x22] @ title (src_metadata topDoc) @ [CHR 0x22] @ '': '' @
     take 150 (content topDoc) @ ''... ''"

definition const_assignment :: js_error where
  "const_assignment = Error (Some ''Assignment to constant variable.'')"

text \<open>
  \<^verbatim>\<open>const fallbackResponse = ...; if (topDoc.metadata.url) { fallbackResponse += ... }\<close>:
  the compound assignment to a \<^verbatim>\<open>const\<close> binding throws a TypeError once its right
  side is evaluated.
\<close>

definition fallbackResponse :: "source_doc \<Rightarrow> js_error + string" where
  "fallbackResponse topDoc =
     (if url (src_metadata topDoc) \<noteq> [] then Inl const_assignment
      else Inr (fallback_text topDoc))"

definition prompt_of :: "string \<Rightarrow> string \<Rightarrow> string" where
  "prompt_of ctx queryText =
     join [CHR 0x0A, CHR 0x0A]
       [''You are a helpful news assistant. Answer the question based on the provided news articles.'',
        ''If the answer cannot be found in the articles, say '' @ [CHR 0x22] @ ''I don''
          @ [CHR 0x27] @ ''t have enough information to answer that.'' @ [CHR 0x22],
        ''Use the following articles as context:'',
        ctx,
        [CHR 0x0A] @ ''Question: '' @ queryText @ [CHR 0x0A] @ ''Answer:'']"

subsection \<open>Responses\<close>

datatype debug_info =
  Debug (usedFallback: bool) (debug_context: string)
| DebugError (debug_error: "string option")

record response =
  answer :: string
  sources :: "source_doc list"
  debug :: "debug_info option"

definition no_articles :: response where
  "no_articles =
     \<lparr>answer = ''I don'' @ [CHR 0x27] @ ''t have any articles to search through yet.'',
      sources = [], debug = None\<rparr>"

definition not_understood :: response where
  "not_understood =
     \<lparr>answer = ''I couldn'' @ [CHR 0x27] @ ''t understand your query. Could you please rephrase it?'',
      sources = [], debug = None\<rparr>"

definition no_relevant :: response where
  "no_relevant =
     \<lparr>answer = ''I couldn'' @ [CHR 0x27]
        @ ''t find any relevant information to answer your question.'',
      sources = [], debug = None\<rparr>"

text \<open>The outer \<^verbatim>\<open>catch (error)\<close>; the \<^verbatim>\<open>stack\<close> string of the engine is left out.\<close>

definition error_response :: "js_error \<Rightarrow> response" where
  "error_response e =
     \<lparr>answer = ''I'' @ [CHR 0x27] @ ''m sorry, I encountered an error while processing your request. ''
        @ (if falsy (message e) then [] else ''The error was: '' @ or_else (message e) []),
      sources = [], debug = Some (DebugError (message e))\<rparr>"

subsection \<open>query\<close>

text \<open>
  What a run of \<^verbatim>\<open>query\<close> does besides returning: each invocation with its
  \<^verbatim>\<open>useFallback\<close> argument, each call of \<^verbatim>\<open>model.generateContent\<close> with its prompt,
  each run of the fallback generator.
\<close>

datatype event = Invoked bool | Generate string | Fallback

text \<open>
  \<open>gen\<close> is the generation service: \<^verbatim>\<open>model.generateContent(prompt)\<close> followed by
  \<^verbatim>\<open>response.text()\<close> gives a text or throws. \<open>engine\<close> is the sort of the
  JavaScript engine on an inconsistent comparator. \<open>k\<close> is a count.
\<close>

function query ::
  "(candidate list \<Rightarrow> candidate list) \<Rightarrow> (string \<Rightarrow> js_error + string) \<Rightarrow> pipeline \<Rightarrow> string \<Rightarrow> nat \<Rightarrow> bool
     \<Rightarrow> response \<times> pipeline \<times> event list" where
  "query engine gen s queryText k useFallback =
     (if documents (initialize s) = [] then (no_articles, initialize s, [Invoked useFallback])
      else if tokenize queryText = [] then (not_understood, initialize s, [Invoked useFallback])
      else if topK_of engine (initialize s) queryText k = []
        then (no_relevant, initialize s, [Invoked useFallback])
      else
        (case sourceDocs_of (initialize s) (topK_of engine (initialize s) queryText k) of
           Inl e \<Rightarrow> (error_response e, initialize s, [Invoked useFallback])
         | Inr sourceDocs \<Rightarrow>
             if useFallback then
               (case fallbackResponse (hd sourceDocs) of
                  Inl e \<Rightarrow> (error_response e, initialize s, [Invoked useFallback, Fallback])
                | Inr text_out \<Rightarrow>
                    (\<lparr>answer = text_out, sources = sourceDocs,
                      debug = Some (Debug True
                        (context_of (initialize s) (topK_of engine (initialize s) queryText k)))\<rparr>,
                     initialize s, [Invoked useFallback, Fallback]))
             else
               (case gen (prompt_of
                       (context_of (initialize s) (topK_of engine (initialize s) queryText k)) queryText) of
                  Inr text_out \<Rightarrow>
                    (\<lparr>answer = text_out, sources = sourceDocs,
                      debug = Some (Debug False
                        (context_of (initialize s) (topK_of engine (initialize s) queryText k)))\<rparr>,
                     initialize s,
                     [Invoked useFallback, Generate (prompt_of
                        (context_of (initialize s) (topK_of engine (initialize s) queryText k)) queryText)])
                | Inl apiError \<Rightarrow>
                    (case query engine gen (initialize s) queryText k True of
                       (r, s', evs) \<Rightarrow>
                         (r, s', Invoked useFallback # Generate (prompt_of
                            (context_of (initialize s) (topK_of engine (initialize s) queryText k)) queryText)
                            # evs)))))"
  by pat_completeness auto
termination
  by (relation "measure (\<lambda>(engine, gen, s, queryText, k, useFallback). if useFallback then 0 else 1)")
    auto

declare query.simps [simp del]

text \<open>A call that leaves out \<^verbatim>\<open>k\<close> and \<^verbatim>\<open>useFallback\<close> gets the defaults 3 and \<^verbatim>\<open>true\<close>.\<close>

definition query_default ::
  "(candidate list \<Rightarrow> candidate list) \<Rightarrow> (string \<Rightarrow> js_error + string) \<Rightarrow> pipeline \<Rightarrow> string \<Rightarrow> response \<times> pipeline \<times> event list" where
  "query_default engine gen s queryText = query engine gen s queryText 3 True"


section \<open>The pipeline of utils/rag\<close>

text \<open>
  The module that the routes and the seed script load
  (\<^verbatim>\<open>require('../utils/rag')\<close>); its text is in
  \<^verbatim>\<open>backend/src/scripts/seedDatabase.js\<close>, lines 208 to 563. Embedded here are the
  constructor, \<^verbatim>\<open>initialize\<close>, \<^verbatim>\<open>clear\<close>, \<^verbatim>\<open>addDocuments\<close> and \<^verbatim>\<open>query\<close>. The Chroma
  handle \<^verbatim>\<open>collectionId\<close> and the remote calls of \<^verbatim>\<open>addDocuments\<close> (lines 399 to
  418) read and write none of the fields below and are left out. \<^verbatim>\<open>addDocuments\<close> has no
  \<^verbatim>\<open>return\<close> statement: the model returns the state only.
\<close>

record rag_document =
  rag_text :: "string option"
  rag_metadata :: metadata

record rag_pipeline =
  rag_documents :: "rag_document list"
  rag_documentVectors :: "freq list"
  rag_initialized :: bool
  rag_urlSet :: "string set"

definition rag_constructor :: rag_pipeline where
  "rag_constructor =
     \<lparr>rag_documents = [], rag_documentVectors = [], rag_initialized = False, rag_urlSet = {}\<rparr>"

definition rag_initialize :: "rag_pipeline \<Rightarrow> rag_pipeline" where
  "rag_initialize s = (if rag_initialized s then s else s\<lparr>rag_initialized := True\<rparr>)"

definition rag_clear :: "rag_pipeline \<Rightarrow> rag_pipeline" where
  "rag_clear s = s\<lparr>rag_documents := [], rag_documentVectors := [], rag_urlSet := {}\<rparr>"

definition trim :: "string \<Rightarrow> string" where
  "trim s = rev (dropWhile is_space (rev (dropWhile is_space s)))"

definition rag_newDoc :: "string \<Rightarrow> article \<Rightarrow> rag_document" where
  \<comment> \<open>the callback of \<^verbatim>\<open>documents.map\<close>\<close>
  "rag_newDoc now doc =
     \<lparr>rag_text = in_text doc,
      rag_metadata = \<lparr>title = or_else (in_title doc) [],
                      url = or_else (in_url doc) [],
                      publishedAt = or_else (in_publishedAt doc) now,
                      source = ''news_feed''\<rparr>\<rparr>"

definition rag_newDocs :: "(nat \<Rightarrow> string) \<Rightarrow> article list \<Rightarrow> rag_document list" where
  "rag_newDocs clock docs = map (\<lambda>(i, doc). rag_newDoc (clock i) doc) (zip [0..<length docs] docs)"

definition urlKey :: "rag_document \<Rightarrow> string" where
  \<comment> \<open>\<^verbatim>\<open>(doc.metadata.url || '').trim()\<close>\<close>
  "urlKey doc = trim (url (rag_metadata doc))"

definition dedup_step ::
  "rag_document list \<times> string set \<Rightarrow> rag_document \<Rightarrow> rag_document list \<times> string set" where
  \<comment> \<open>the body of the first loop, on (toIndex, urlSet)\<close>
  "dedup_step acc doc =
     (case acc of (toIndex, urlSet) \<Rightarrow>
        if urlKey doc \<noteq> [] \<and> urlKey doc \<in> urlSet then (toIndex, urlSet)
        else (toIndex @ [doc], if urlKey doc \<noteq> [] then insert (urlKey doc) urlSet else urlSet))"

definition index_step :: "rag_pipeline \<Rightarrow> rag_document \<Rightarrow> rag_pipeline" where
  \<comment> \<open>the body of the last loop; \<^verbatim>\<open>tokenize\<close> of a missing text is empty\<close>
  "index_step s doc =
     s\<lparr>rag_documents := rag_documents s @ [doc],
       rag_documentVectors := rag_documentVectors s
         @ [getWordFreq (case rag_text doc of None \<Rightarrow> [] | Some t \<Rightarrow> tokenize t)]\<rparr>"

definition rag_addDocuments :: "(nat \<Rightarrow> string) \<Rightarrow> rag_pipeline \<Rightarrow> article list \<Rightarrow> rag_pipeline" where
  "rag_addDocuments clock s docs =
     (case foldl dedup_step ([], rag_urlSet (rag_initialize s)) (rag_newDocs clock docs) of
        (toIndex, urlSet) \<Rightarrow> foldl index_step ((rag_initialize s)\<lparr>rag_urlSet := urlSet\<rparr>) toIndex)"

subsection \<open>query of utils/rag\<close>

text \<open>
  A retrieved item: the vector store may hand back a missing content and metadata
  without title or URL, so every property is optional.
\<close>

record rag_source =
  rs_content :: "string option"
  rs_title :: "string option"
  rs_url :: "string option"
  rs_publishedAt :: "string option"
  rs_source :: "string option"

record rag_debug =
  rag_usedFallback :: bool
  rag_usedVectorStore :: "bool option"
  rag_context :: string

record rag_response =
  rag_answer :: string
  rag_sources :: "rag_source list"
  rag_debug :: "rag_debug option"

definition rag_no_articles :: rag_response where
  "rag_no_articles =
     \<lparr>rag_answer = ''I'' @ [CHR 0x27] @ ''m sorry, but I don'' @ [CHR 0x27]
        @ ''t have any articles to search through yet.'',
      rag_sources = [], rag_debug = None\<rparr>"

definition rag_not_understood :: rag_response where
  "rag_not_understood =
     \<lparr>rag_answer = ''I couldn'' @ [CHR 0x27]
        @ ''t understand your query. Could you please rephrase it?'',
      rag_sources = [], rag_debug = None\<rparr>"

definition rag_no_relevant :: rag_response where
  "rag_no_relevant =
     \<lparr>rag_answer = ''I couldn'' @ [CHR 0x27]
        @ ''t find any relevant information to answer your question.'',
      rag_sources = [], rag_debug = None\<rparr>"

definition rag_error_response :: rag_response where
  \<comment> \<open>the outer \<^verbatim>\<open>catch (error)\<close>, whatever was thrown\<close>
  "rag_error_response =
     \<lparr>rag_answer = ''I'' @ [CHR 0x27]
        @ ''m sorry, I encountered an error while processing your request.'',
      rag_sources = [], rag_debug = None\<rparr>"

definition undefined_read :: js_error where
  "undefined_read = Error (Some ''Cannot read properties of undefined'')"

definition rag_source_of :: "rag_document list \<Rightarrow> candidate \<Rightarrow> js_error + rag_source" where
  "rag_source_of docs item =
     (if index item < length docs
      then Inr \<lparr>rs_content = rag_text (docs ! index item),
                rs_title = Some (title (rag_metadata (docs ! index item))),
                rs_url = Some (url (rag_metadata (docs ! index item))),
                rs_publishedAt = Some (publishedAt (rag_metadata (docs ! index item))),
                rs_source = Some (source (rag_metadata (docs ! index item)))\<rparr>
      else Inl undefined_read)"

text \<open>
  The in-memory retrieval (lines 462 to 490): a canned response, or an exception, or
  the sources.
\<close>

definition rag_lexical ::
  "(candidate list \<Rightarrow> candidate list) \<Rightarrow> rag_pipeline \<Rightarrow> string \<Rightarrow> nat \<Rightarrow> rag_response + (js_error + rag_source list)" where
  "rag_lexical engine s queryText k =
     (if rag_documents s = [] then Inl rag_no_articles
      else if tokenize queryText = [] then Inl rag_not_understood
      else if top_k engine k (scores_of (getWordFreq (tokenize queryText)) (rag_documentVectors s)) = []
        then Inl rag_no_relevant
      else Inr (map_throwing (rag_source_of (rag_documents s))
             (top_k engine k (scores_of (getWordFreq (tokenize queryText)) (rag_documentVectors s)))))"

definition interpolate :: "string option \<Rightarrow> string" where
  \<comment> \<open>a possibly missing string inside a template literal\<close>
  "interpolate x = (case x of None \<Rightarrow> ''undefined'' | Some v \<Rightarrow> v)"

definition rag_context_block :: "rag_source \<Rightarrow> js_error + string" where
  \<comment> \<open>\<^verbatim>\<open>doc.content.substring\<close> throws on a missing content\<close>
  "rag_context_block doc =
     (case rs_content doc of
        None \<Rightarrow> Inl undefined_read
      | Some c \<Rightarrow>
          Inr (''Title: '' @ or_else (rs_title doc) [] @ [CHR 0x0A] @
               ''Source: '' @ or_else (rs_url doc) [] @ [CHR 0x0A] @
               ''Content: '' @ take 500 c @ ''...''))"

definition rag_context_of :: "rag_source list \<Rightarrow> js_error + string" where
  "rag_context_of sourceDocs =
     (case map_throwing rag_context_block sourceDocs of
        Inl e \<Rightarrow> Inl e
      | Inr blocks \<Rightarrow> Inr (join [CHR 0x0A, CHR 0x0A] blocks))"

definition rag_fallbackResponse :: "rag_source list \<Rightarrow> js_error + string" where
  "rag_fallbackResponse sourceDocs =
     (case sourceDocs of
        [] \<Rightarrow> Inl undefined_read
      | topDoc # rest \<Rightarrow>
          (case rs_content topDoc of
             None \<Rightarrow> Inl undefined_read
           | Some c \<Rightarrow>
               Inr (''Based on the article '' @ [CHR 0x22] @ interpolate (rs_title topDoc)
                    @ [CHR 0x22] @ '': '' @ take 150 c @ ''... '' @
                    ''[Read more: '' @ or_else (rs_url topDoc) ''No URL provided'' @ '']'')))"

text \<open>
  \<open>vs\<close> stands for the vector-store block of an invocation (lines 445 to 459): what
  the remote embedding service and the remote collection give, in a well-formed
  reply, for the flag, the query text and \<open>k\<close> of that invocation; \<open>None\<close> when they
  are not configured or a step fails. An array from the vector store, empty or not,
  is used as it is; otherwise the in-memory retrieval runs.
\<close>

definition rag_retrieve ::
  "(candidate list \<Rightarrow> candidate list) \<Rightarrow> (bool \<Rightarrow> string \<Rightarrow> nat \<Rightarrow> rag_source list option)
     \<Rightarrow> rag_pipeline \<Rightarrow> string \<Rightarrow> nat \<Rightarrow> bool \<Rightarrow> rag_response + (js_error + rag_source list)" where
  "rag_retrieve engine vs s queryText k useFallback =
     (case vs useFallback queryText k of
        Some docs \<Rightarrow> Inr (Inr docs)
      | None \<Rightarrow> rag_lexical engine s queryText k)"

text \<open>\<open>gen\<close> is the generation service and \<open>engine\<close> the sort, as for rag.new.js.\<close>

function rag_query ::
  "(candidate list \<Rightarrow> candidate list) \<Rightarrow> (bool \<Rightarrow> string \<Rightarrow> nat \<Rightarrow> rag_source list option) \<Rightarrow> (string \<Rightarrow> js_error + string)
     \<Rightarrow> rag_pipeline \<Rightarrow> string \<Rightarrow> nat \<Rightarrow> bool \<Rightarrow> rag_response \<times> rag_pipeline \<times> event list" where
  "rag_query engine vs gen s queryText k useFallback =
     (case rag_retrieve engine vs (rag_initialize s) queryText k useFallback of
        Inl canned \<Rightarrow> (canned, rag_initialize s, [Invoked useFallback])
      | Inr (Inl e) \<Rightarrow> (rag_error_response, rag_initialize s, [Invoked useFallback])
      | Inr (Inr sourceDocs) \<Rightarrow>
          (case rag_context_of sourceDocs of
             Inl e \<Rightarrow> (rag_error_response, rag_initialize s, [Invoked useFallback])
           | Inr ctx \<Rightarrow>
               if useFallback then
                 (case rag_fallbackResponse sourceDocs of
                    Inl e \<Rightarrow> (rag_error_response, rag_initialize s, [Invoked useFallback, Fallback])
                  | Inr text_out \<Rightarrow>
                      (\<lparr>rag_answer = text_out, rag_sources = sourceDocs,
                        rag_debug = Some \<lparr>rag_usedFallback = True, rag_usedVectorStore = None,
                          rag_context = ctx\<rparr>\<rparr>,
                       rag_initialize s, [Invoked useFallback, Fallback]))
               else
                 (case gen (prompt_of ctx queryText) of
                    Inr text_out \<Rightarrow>
                      (\<lparr>rag_answer = text_out, rag_sources = sourceDocs,
                        rag_debug = Some \<lparr>rag_usedFallback = False,
                          rag_usedVectorStore = Some (vs useFallback queryText k \<noteq> None),
                          rag_context = ctx\<rparr>\<rparr>,
                       rag_initialize s, [Invoked useFallback, Generate (prompt_of ctx queryText)])
                  | Inl apiError \<Rightarrow>
                      (case rag_query engine vs gen (rag_initialize s) queryText k True of
                         (r, s', evs) \<Rightarrow>
                           (r, s', Invoked useFallback # Generate (prompt_of ctx queryText) # evs)))))"
  by pat_completeness auto
termination
  by (relation
      "measure (\<lambda>(engine, vs, gen, s, queryText, k, useFallback). if useFallback then 0 else 1)")
    auto

declare rag_query.simps [simp del]

text \<open>A call that leaves out \<^verbatim>\<open>k\<close> and \<^verbatim>\<open>useFallback\<close> gets the defaults 3 and \<^verbatim>\<open>false\<close>.\<close>

definition rag_query_default ::
  "(candidate list \<Rightarrow> candidate list) \<Rightarrow> (bool \<Rightarrow> string \<Rightarrow> nat \<Rightarrow> rag_source list option)
     \<Rightarrow> (string \<Rightarrow> js_error + string) \<Rightarrow> rag_pipeline \<Rightarrow> string \<Rightarrow> rag_response \<times> rag_pipeline \<times> event list" where
  "rag_query_default engine vs gen s queryText = rag_query engine vs gen s queryText 3 False"

section \<open>Runs of the store operations\<close>

fun run_adds :: "pipeline \<Rightarrow> ((nat \<Rightarrow> string) \<times> article list) list \<Rightarrow> pipeline" where
  "run_adds s [] = s"
| "run_adds s ((clock, docs) # calls) = run_adds (snd (addDocuments clock s docs)) calls"

datatype store_call = AddDocuments "nat \<Rightarrow> string" "article list" | Clear

fun rag_call :: "rag_pipeline \<Rightarrow> store_call \<Rightarrow> rag_pipeline" where
  "rag_call s (AddDocuments clock docs) = rag_addDocuments clock s docs"
| "rag_call s Clear = rag_clear s"

definition rag_run :: "rag_pipeline \<Rightarrow> store_call list \<Rightarrow> rag_pipeline" where
  "rag_run s calls = foldl rag_call s calls"


text \<open>
  What the theorems about the stores speak of: an input document that the loop of
  rag.new.js does not skip, the non-empty deduplication keys of a list of documents
  of utils/rag, and the vector that its last loop computes for a document.
\<close>

definition accepted :: "article \<Rightarrow> bool" where
  "accepted doc = (\<not> (falsy (in_text doc) \<or> falsy (in_title doc)))"

definition nonempty_keys :: "rag_document list \<Rightarrow> string list" where
  "nonempty_keys ds = filter (\<lambda>k. k \<noteq> []) (map urlKey ds)"

definition vector_of :: "rag_document \<Rightarrow> freq" where
  "vector_of doc = getWordFreq (case rag_text doc of None \<Rightarrow> [] | Some t \<Rightarrow> tokenize t)"

section \<open>Observations on a run of query\<close>

definition events :: "response \<times> pipeline \<times> event list \<Rightarrow> event list" where
  "events r = snd (snd r)"

definition generate_calls :: "event list \<Rightarrow> string list" where
  "generate_calls evs = concat (map (\<lambda>e. case e of Generate p \<Rightarrow> [p] | _ \<Rightarrow> []) evs)"

definition invocations :: "event list \<Rightarrow> bool list" where
  "invocations evs = concat (map (\<lambda>e. case e of Invoked b \<Rightarrow> [b] | _ \<Rightarrow> []) evs)"

definition rag_events :: "rag_response \<times> rag_pipeline \<times> event list \<Rightarrow> event list" where
  "rag_events r = snd (snd r)"

definition fallback_runs :: "event list \<Rightarrow> nat" where
  "fallback_runs evs = length (filter (\<lambda>e. e = Fallback) evs)"

section \<open>Sample data\<close>

definition article_pets :: article where
  "article_pets =
     \<lparr>in_text = Some ''cats pets'', in_title = Some ''A'', in_url = Some ''u1'',
      in_publishedAt = None, in_source = None\<rparr>"

definition article_stocks :: article where
  "article_stocks =
     \<lparr>in_text = Some ''stock markets'', in_title = Some ''B'', in_url = None,
      in_publishedAt = None, in_source = None\<rparr>"

definition example_store :: pipeline where
  "example_store =
     \<lparr>documents =
        [\<lparr>doc_text = ''cats pets'',
          metadata = \<lparr>title = ''A'', url = ''u1'', publishedAt = ''T'', source = ''unknown''\<rparr>\<rparr>,
         \<lparr>doc_text = ''stock markets'',
          metadata = \<lparr>title = ''B'', url = [], publishedAt = ''T'', source = ''unknown''\<rparr>\<rparr>],
      documentVectors = [[(''cats'', Count 1), (''pets'', Count 1)], [(''stock'', Count 1), (''markets'', Count 1)]],
      initialized = True\<rparr>"

definition service_up :: "string \<Rightarrow> js_error + string" where
  "service_up p = Inr ''generated''"

definition service_down :: "string \<Rightarrow> js_error + string" where
  "service_down p = Inl (Error (Some ''503''))"

definition article_pets_again :: article where
  "article_pets_again =
     \<lparr>in_text = Some ''more pets'', in_title = Some ''C'', in_url = Some '' u1 '',
      in_publishedAt = None, in_source = None\<rparr>"

definition rag_example_store :: rag_pipeline where
  "rag_example_store =
     \<lparr>rag_documents =
        [\<lparr>rag_text = Some ''cats pets'',
          rag_metadata = \<lparr>title = ''A'', url = ''u1'', publishedAt = ''T'', source = ''news_feed''\<rparr>\<rparr>,
         \<lparr>rag_text = Some ''stock markets'',
          rag_metadata = \<lparr>title = ''B'', url = [], publishedAt = ''T'', source = ''news_feed''\<rparr>\<rparr>],
      rag_documentVectors = [[(''cats'', Count 1), (''pets'', Count 1)], [(''stock'', Count 1), (''markets'', Count 1)]],
      rag_initialized = True,
      rag_urlSet = {''u1''}\<rparr>"

definition no_vector_store :: "bool \<Rightarrow> string \<Rightarrow> nat \<Rightarrow> rag_source list option" where
  "no_vector_store useFallback queryText k = None"



section \<open>The two arrays of the store stay parallel\<close>

lemma initialize_fields [simp]:
  "documents (initialize s) = documents s"
  "documentVectors (initialize s) = documentVectors s"
  "initialized (initialize s) = True"
  "initialize (initialize s) = initialize s"
  by (simp_all add: initialize_def)

lemma add_document_cases:
  "add_document now s doc = s \<or>
   (documents (add_document now s doc) = documents s @ [make_document now doc] \<and>
    documentVectors (add_document now s doc) =
      documentVectors s @ [getWordFreq (tokenize (doc_text (make_document now doc)))])"
  by (simp add: add_document_def)

lemma add_document_lengths:
  "length (documents s) = length (documentVectors s) \<Longrightarrow>
   length (documents (add_document now s doc)) = length (documentVectors (add_document now s doc))"
  by (simp add: add_document_def)

lemma add_loop_lengths:
  "length (documents s) = length (documentVectors s) \<Longrightarrow>
   length (documents (add_loop clock i s docs)) = length (documentVectors (add_loop clock i s docs))"
  by (induction docs arbitrary: i s) (simp_all add: add_document_lengths)

lemma addDocuments_lengths:
  "length (documents s) = length (documentVectors s) \<Longrightarrow>
   length (documents (snd (addDocuments clock s docs))) =
   length (documentVectors (snd (addDocuments clock s docs)))"
  by (simp add: addDocuments_def add_loop_lengths)

lemma run_adds_lengths:
  "length (documents s) = length (documentVectors s) \<Longrightarrow>
   length (documents (run_adds s calls)) = length (documentVectors (run_adds s calls))"
proof (induction calls arbitrary: s)
  case Nil
  then show ?case by simp
next
  case (Cons c calls)
  obtain clock docs where c: "c = (clock, docs)" by (cases c)
  show ?case
    unfolding c run_adds.simps
    by (rule Cons.IH) (rule addDocuments_lengths [OF Cons.prems])
qed

lemma rag_initialize_fields [simp]:
  "rag_documents (rag_initialize s) = rag_documents s"
  "rag_documentVectors (rag_initialize s) = rag_documentVectors s"
  "rag_urlSet (rag_initialize s) = rag_urlSet s"
  by (simp_all add: rag_initialize_def)

lemma index_loop_documents:
  "rag_documents (foldl index_step s toIndex) = rag_documents s @ toIndex"
  by (induction toIndex arbitrary: s) (simp_all add: index_step_def)

lemma index_loop_vectors:
  "rag_documentVectors (foldl index_step s toIndex) =
   rag_documentVectors s
     @ map (\<lambda>doc. getWordFreq (case rag_text doc of None \<Rightarrow> [] | Some t \<Rightarrow> tokenize t)) toIndex"
  by (induction toIndex arbitrary: s) (simp_all add: index_step_def)

lemma index_loop_urlSet:
  "rag_urlSet (foldl index_step s toIndex) = rag_urlSet s"
  by (induction toIndex arbitrary: s) (simp_all add: index_step_def)

lemma rag_addDocuments_lengths:
  "length (rag_documents s) = length (rag_documentVectors s) \<Longrightarrow>
   length (rag_documents (rag_addDocuments clock s docs)) =
   length (rag_documentVectors (rag_addDocuments clock s docs))"
  by (simp add: rag_addDocuments_def index_loop_documents index_loop_vectors split: prod.splits)

lemma rag_call_lengths:
  "length (rag_documents s) = length (rag_documentVectors s) \<Longrightarrow>
   length (rag_documents (rag_call s c)) = length (rag_documentVectors (rag_call s c))"
  by (cases c) (simp_all add: rag_addDocuments_lengths rag_clear_def)

lemma rag_run_lengths:
  "length (rag_documents s) = length (rag_documentVectors s) \<Longrightarrow>
   length (rag_documents (rag_run s calls)) = length (rag_documentVectors (rag_run s calls))"
  unfolding rag_run_def
  by (induction calls arbitrary: s) (simp_all add: rag_call_lengths)

lemma rag_add_one_cases:
  "(rag_documents (rag_addDocuments clock s [doc]) = rag_documents s \<and>
    rag_documentVectors (rag_addDocuments clock s [doc]) = rag_documentVectors s) \<or>
   (\<exists>d v. rag_documents (rag_addDocuments clock s [doc]) = rag_documents s @ [d] \<and>
      rag_documentVectors (rag_addDocuments clock s [doc]) = rag_documentVectors s @ [v])"
  by (simp add: rag_addDocuments_def rag_newDocs_def dedup_step_def index_step_def)

text \<open>
  C4. After any sequence of \<^verbatim>\<open>addDocuments\<close> calls from the freshly constructed
  pipeline, \<open>documents\<close> and \<open>documentVectors\<close> have the same length, and each
  iteration of the loop either leaves the store as it is or appends one element
  to each of the two. The same holds for the store of utils/rag under any
  sequence of \<^verbatim>\<open>addDocuments\<close> and \<^verbatim>\<open>clear\<close> calls, where \<^verbatim>\<open>clear\<close> empties both.
\<close>

theorem store_arrays_parallel:
  "length (documents (run_adds constructor calls)) =
     length (documentVectors (run_adds constructor calls)) \<and>
   (add_document now s doc = s \<or>
    (documents (add_document now s doc) = documents s @ [make_document now doc] \<and>
     documentVectors (add_document now s doc) =
       documentVectors s @ [getWordFreq (tokenize (doc_text (make_document now doc)))])) \<and>
   length (rag_documents (rag_run rag_constructor rag_calls)) =
     length (rag_documentVectors (rag_run rag_constructor rag_calls)) \<and>
   ((rag_documents (rag_addDocuments clock r [doc]) = rag_documents r \<and>
     rag_documentVectors (rag_addDocuments clock r [doc]) = rag_documentVectors r) \<or>
    (\<exists>d v. rag_documents (rag_addDocuments clock r [doc]) = rag_documents r @ [d] \<and>
       rag_documentVectors (rag_addDocuments clock r [doc]) = rag_documentVectors r @ [v])) \<and>
   rag_documents (rag_clear r) = [] \<and> rag_documentVectors (rag_clear r) = []"
proof -
  have "length (documents (run_adds constructor calls)) =
      length (documentVectors (run_adds constructor calls))"
    by (rule run_adds_lengths) (simp add: constructor_def)
  moreover have "length (rag_documents (rag_run rag_constructor rag_calls)) =
      length (rag_documentVectors (rag_run rag_constructor rag_calls))"
    by (rule rag_run_lengths) (simp add: rag_constructor_def)
  moreover have "rag_documents (rag_clear r) = [] \<and> rag_documentVectors (rag_clear r) = []"
    by (simp add: rag_clear_def)
  ultimately show ?thesis
    using add_document_cases [of now s doc] rag_add_one_cases [of clock r doc] by blast
qed

section \<open>query reads the store and does not write it\<close>

lemma query_True:
  "query engine gen s q k True =
     (if documents s = [] then (no_articles, initialize s, [Invoked True])
      else if tokenize q = [] then (not_understood, initialize s, [Invoked True])
      else if topK_of engine (initialize s) q k = [] then (no_relevant, initialize s, [Invoked True])
      else
        (case sourceDocs_of (initialize s) (topK_of engine (initialize s) q k) of
           Inl e \<Rightarrow> (error_response e, initialize s, [Invoked True])
         | Inr sourceDocs \<Rightarrow>
               (case fallbackResponse (hd sourceDocs) of
                  Inl e \<Rightarrow> (error_response e, initialize s, [Invoked True, Fallback])
                | Inr text_out \<Rightarrow>
                    (\<lparr>answer = text_out, sources = sourceDocs,
                      debug = Some (Debug True
                        (context_of (initialize s) (topK_of engine (initialize s) q k)))\<rparr>,
                     initialize s, [Invoked True, Fallback]))))"
  by (subst query.simps) (simp cong: sum.case_cong)

lemma query_True_state: "fst (snd (query engine gen s q k True)) = initialize s"
  by (simp add: query_True split: sum.splits)

lemma query_state: "fst (snd (query engine gen s q k fb)) = initialize s"
proof (cases fb)
  case True
  then show ?thesis by (simp add: query_True_state)
next
  case False
  have "fst (snd (query engine gen (initialize s) q k True)) = initialize s"
    using query_True_state [of engine gen "initialize s" q k] by simp
  then show ?thesis
    using False by (subst query.simps) (auto split: sum.splits prod.splits)
qed

lemma rag_initialize_idem [simp]: "rag_initialize (rag_initialize s) = rag_initialize s"
  by (simp add: rag_initialize_def)

lemma rag_query_True:
  "rag_query engine vs gen s q k True =
     (case rag_retrieve engine vs (rag_initialize s) q k True of
        Inl canned \<Rightarrow> (canned, rag_initialize s, [Invoked True])
      | Inr (Inl e) \<Rightarrow> (rag_error_response, rag_initialize s, [Invoked True])
      | Inr (Inr sourceDocs) \<Rightarrow>
          (case rag_context_of sourceDocs of
             Inl e \<Rightarrow> (rag_error_response, rag_initialize s, [Invoked True])
           | Inr ctx \<Rightarrow>
                 (case rag_fallbackResponse sourceDocs of
                    Inl e \<Rightarrow> (rag_error_response, rag_initialize s, [Invoked True, Fallback])
                  | Inr text_out \<Rightarrow>
                      (\<lparr>rag_answer = text_out, rag_sources = sourceDocs,
                        rag_debug = Some \<lparr>rag_usedFallback = True, rag_usedVectorStore = None,
                          rag_context = ctx\<rparr>\<rparr>,
                       rag_initialize s, [Invoked True, Fallback]))))"
  by (subst rag_query.simps) (simp cong: sum.case_cong)

lemma rag_query_True_state: "fst (snd (rag_query engine vs gen s q k True)) = rag_initialize s"
  by (simp add: rag_query_True split: sum.splits)

lemma rag_query_state: "fst (snd (rag_query engine vs gen s q k fb)) = rag_initialize s"
proof (cases fb)
  case True
  then show ?thesis by (simp add: rag_query_True_state)
next
  case False
  have "fst (snd (rag_query engine vs gen (rag_initialize s) q k True)) = rag_initialize s"
    using rag_query_True_state [of engine vs gen "rag_initialize s" q k] by simp
  then show ?thesis
    using False by (subst rag_query.simps) (auto split: sum.splits prod.splits)
qed

lemma rag_query_False:
  "rag_query engine vs gen s q k False =
     (case rag_retrieve engine vs (rag_initialize s) q k False of
        Inl canned \<Rightarrow> (canned, rag_initialize s, [Invoked False])
      | Inr (Inl e) \<Rightarrow> (rag_error_response, rag_initialize s, [Invoked False])
      | Inr (Inr sourceDocs) \<Rightarrow>
          (case rag_context_of sourceDocs of
             Inl e \<Rightarrow> (rag_error_response, rag_initialize s, [Invoked False])
           | Inr ctx \<Rightarrow>
                 (case gen (prompt_of ctx q) of
                    Inr text_out \<Rightarrow>
                      (\<lparr>rag_answer = text_out, rag_sources = sourceDocs,
                        rag_debug = Some \<lparr>rag_usedFallback = False,
                          rag_usedVectorStore = Some (vs False q k \<noteq> None),
                          rag_context = ctx\<rparr>\<rparr>,
                       rag_initialize s, [Invoked False, Generate (prompt_of ctx q)])
                  | Inl apiError \<Rightarrow>
                      (fst (rag_query engine vs gen (rag_initialize s) q k True), rag_initialize s,
                       Invoked False # Generate (prompt_of ctx q)
                         # rag_events (rag_query engine vs gen (rag_initialize s) q k True)))))"
proof -
  have "rag_query engine vs gen (rag_initialize s) q k True =
      (fst (rag_query engine vs gen (rag_initialize s) q k True), rag_initialize s,
       rag_events (rag_query engine vs gen (rag_initialize s) q k True))"
    using rag_query_True_state [of engine vs gen "rag_initialize s" q k]
    by (cases "rag_query engine vs gen (rag_initialize s) q k True") (simp add: rag_events_def)
  then show ?thesis
    by (subst rag_query.simps) (auto split: sum.splits prod.splits simp: rag_events_def)
qed

text \<open>
  C10. Whatever the store, the query text, \<open>k\<close>, the flag and the answers of the
  remote services, the pipeline that \<^verbatim>\<open>query\<close> leaves behind has the \<open>documents\<close>
  and the \<open>documentVectors\<close> it found, and in utils/rag also the set of seen URLs;
  the one modelled field it may write is \<open>initialized\<close>.
\<close>

theorem query_keeps_store:
  "documents (fst (snd (query engine gen s queryText k useFallback))) = documents s \<and>
   documentVectors (fst (snd (query engine gen s queryText k useFallback))) = documentVectors s \<and>
   fst (snd (query engine gen s queryText k useFallback)) = initialize s \<and>
   rag_documents (fst (snd (rag_query engine vs gen r queryText k useFallback))) = rag_documents r \<and>
   rag_documentVectors (fst (snd (rag_query engine vs gen r queryText k useFallback))) =
     rag_documentVectors r \<and>
   rag_urlSet (fst (snd (rag_query engine vs gen r queryText k useFallback))) = rag_urlSet r \<and>
   fst (snd (rag_query engine vs gen r queryText k useFallback)) = rag_initialize r"
  by (simp add: query_state rag_query_state)

section \<open>What a run of query calls\<close>



lemma query_False:
  "query engine gen s q k False =
     (if documents s = [] then (no_articles, initialize s, [Invoked False])
      else if tokenize q = [] then (not_understood, initialize s, [Invoked False])
      else if topK_of engine (initialize s) q k = [] then (no_relevant, initialize s, [Invoked False])
      else
        (case sourceDocs_of (initialize s) (topK_of engine (initialize s) q k) of
           Inl e \<Rightarrow> (error_response e, initialize s, [Invoked False])
         | Inr sourceDocs \<Rightarrow>
               (case gen (prompt_of (context_of (initialize s) (topK_of engine (initialize s) q k)) q) of
                  Inr text_out \<Rightarrow>
                    (\<lparr>answer = text_out, sources = sourceDocs,
                      debug = Some (Debug False
                        (context_of (initialize s) (topK_of engine (initialize s) q k)))\<rparr>,
                     initialize s,
                     [Invoked False, Generate (prompt_of
                        (context_of (initialize s) (topK_of engine (initialize s) q k)) q)])
                | Inl apiError \<Rightarrow>
                    (fst (query engine gen (initialize s) q k True), initialize s,
                     Invoked False # Generate (prompt_of
                        (context_of (initialize s) (topK_of engine (initialize s) q k)) q)
                       # events (query engine gen (initialize s) q k True)))))"
proof -
  have "query engine gen (initialize s) q k True =
      (fst (query engine gen (initialize s) q k True), initialize s, events (query engine gen (initialize s) q k True))"
    using query_True_state [of engine gen "initialize s" q k]
    by (cases "query engine gen (initialize s) q k True") (simp add: events_def)
  then show ?thesis
    by (subst query.simps) (auto split: sum.splits prod.splits simp: events_def)
qed

lemma events_True:
  "events (query engine gen s q k True) = [Invoked True] \<or>
   events (query engine gen s q k True) = [Invoked True, Fallback]"
  by (simp add: query_True events_def split: sum.splits)

lemma generate_calls_simps [simp]:
  "generate_calls [] = []"
  "generate_calls (Invoked b # evs) = generate_calls evs"
  "generate_calls (Generate p # evs) = p # generate_calls evs"
  "generate_calls (Fallback # evs) = generate_calls evs"
  by (simp_all add: generate_calls_def)

lemma invocations_simps [simp]:
  "invocations [] = []"
  "invocations (Invoked b # evs) = b # invocations evs"
  "invocations (Generate p # evs) = invocations evs"
  "invocations (Fallback # evs) = invocations evs"
  by (simp_all add: invocations_def)

lemma fallback_runs_simps [simp]:
  "fallback_runs [] = 0"
  "fallback_runs (Invoked b # evs) = fallback_runs evs"
  "fallback_runs (Generate p # evs) = fallback_runs evs"
  "fallback_runs (Fallback # evs) = Suc (fallback_runs evs)"
  by (simp_all add: fallback_runs_def)

lemma True_run_observed:
  "generate_calls (events (query engine gen s q k True)) = [] \<and>
   invocations (events (query engine gen s q k True)) = [True] \<and>
   fallback_runs (events (query engine gen s q k True)) \<le> 1"
  using events_True [of engine gen s q k] by auto

lemma False_run_observed:
  "length (generate_calls (events (query engine gen s q k False))) \<le> 1 \<and>
   fallback_runs (events (query engine gen s q k False)) \<le> 1 \<and>
   invocations (events (query engine gen s q k False)) =
     (case generate_calls (events (query engine gen s q k False)) of
        [] \<Rightarrow> [False]
      | p # ps \<Rightarrow> (case gen p of Inl e \<Rightarrow> [False, True] | Inr t \<Rightarrow> [False])) \<and>
   (case generate_calls (events (query engine gen s q k False)) of
      [] \<Rightarrow> fallback_runs (events (query engine gen s q k False)) = 0
    | p # ps \<Rightarrow>
        (case gen p of
           Inl e \<Rightarrow> fst (query engine gen s q k False) = fst (query engine gen (initialize s) q k True)
         | Inr t \<Rightarrow> answer (fst (query engine gen s q k False)) = t \<and>
             fallback_runs (events (query engine gen s q k False)) = 0))"
  using True_run_observed [of engine gen "initialize s" q k]
  by (simp add: query_False events_def [of "(a, b, c)" for a b c] split: sum.splits)

subsection \<open>Evaluation on the sample data\<close>

lemmas double_eval = pow2_def bits.simps ilog2_def nearest_even_def round_half_even_def
  round_to_ulp_def to_double_def fadd_def fmul_def fdiv_def isqrt_step_def isqrt.simps
  nearest_root_def sqrt_scaled_def sqrt_at_def fsqrt_def

lemmas string_eval = is_word_def is_space_def lower_char_def capitals_def smalls_def
  toLowerCase_def replace_punct_def split_ws.simps tokenize_def falsy_def or_else_def
  digit_char_def decimal.simps toFixed1_def

lemmas freq_eval = builtins_def inherited_def lookup_def entry_def assign_def incremented_def
  count_word_def getWordFreq_def digits_value_def is_index_def object_keys_def cosine_step_def
  all_words_def divisor_def cosine_result_def accumulate_def cosineSimilarity_def

lemmas store_eval = constructor_def initialize_def make_document_def add_document_def
  addDocuments_def

lemmas query_eval = scores_of_def all_equal_def sort_by_score_def top_k_def topK_of_def percent_def undefined_text_def source_of_def
  sourceDocs_of_def join_def context_block_def context_of_def fallback_text_def
  const_assignment_def fallbackResponse_def prompt_of_def

lemma example_store_built:
  "addDocuments (\<lambda>i. ''T'') constructor [article_pets, article_stocks] = (True, example_store)"
  by (simp add: store_eval article_pets_def article_stocks_def example_store_def string_eval
      freq_eval)

lemma example_initialized [simp]: "initialize example_store = example_store"
  by (simp add: initialize_def example_store_def)

lemma example_nonempty [simp]: "documents example_store \<noteq> []"
  by (simp add: example_store_def)

lemma tokenize_pets: "tokenize ''Pets?'' = [''pets'']"
  by (simp add: string_eval)

lemma tokenize_markets: "tokenize ''Markets!'' = [''markets'']"
  by (simp add: string_eval)

lemma tokenize_gold: "tokenize ''gold'' = [''gold'']"
  by (simp add: string_eval)

lemma tokenize_punctuation: "tokenize ''?!'' = []"
  by (simp add: string_eval)

lemma example_scores_pets:
  "scores_of (getWordFreq [''pets'']) (documentVectors example_store) =
     [\<lparr>index = 0, score = Num (1592262918131443 / 2251799813685248)\<rparr>, \<lparr>index = 1, score = Num 0\<rparr>]"
  by (simp add: example_store_def scores_of_def freq_eval double_eval)

lemma example_scores_markets:
  "scores_of (getWordFreq [''markets'']) (documentVectors example_store) =
     [\<lparr>index = 0, score = Num 0\<rparr>, \<lparr>index = 1, score = Num (1592262918131443 / 2251799813685248)\<rparr>]"
  by (simp add: example_store_def scores_of_def freq_eval double_eval)

lemma example_scores_gold:
  "scores_of (getWordFreq [''gold'']) (documentVectors example_store) =
     [\<lparr>index = 0, score = Num 0\<rparr>, \<lparr>index = 1, score = Num 0\<rparr>]"
  by (simp add: example_store_def scores_of_def freq_eval double_eval)

lemma example_topK_pets:
  "topK_of engine example_store ''Pets?'' 3 = [\<lparr>index = 0, score = Num (1592262918131443 / 2251799813685248)\<rparr>]"
  by (simp add: topK_of_def tokenize_pets example_scores_pets top_k_def sort_by_score_def)

lemma example_topK_markets:
  "topK_of engine example_store ''Markets!'' 3 =
     [\<lparr>index = 1, score = Num (1592262918131443 / 2251799813685248)\<rparr>]"
  by (simp add: topK_of_def tokenize_markets example_scores_markets top_k_def sort_by_score_def)

lemma example_topK_nonempty [simp]:
  "topK_of engine example_store ''Pets?'' 3 \<noteq> []"
  "topK_of engine example_store ''Markets!'' 3 \<noteq> []"
  by (simp_all add: example_topK_pets example_topK_markets)

lemma example_sources_pets:
  "sourceDocs_of example_store (topK_of engine example_store ''Pets?'' 3) =
     Inr [\<lparr>content = ''cats pets'',
           src_metadata = \<lparr>title = ''A'', url = ''u1'', publishedAt = ''T'', source = ''unknown''\<rparr>\<rparr>]"
  unfolding example_topK_pets
  by (simp add: sourceDocs_of_def source_of_def example_store_def)

lemma example_sources_markets:
  "sourceDocs_of example_store (topK_of engine example_store ''Markets!'' 3) =
     Inr [\<lparr>content = ''stock markets'',
           src_metadata = \<lparr>title = ''B'', url = [], publishedAt = ''T'', source = ''unknown''\<rparr>\<rparr>]"
  unfolding example_topK_markets
  by (simp add: sourceDocs_of_def source_of_def example_store_def)

lemma example_context_markets:
  "context_of example_store (topK_of engine example_store ''Markets!'' 3) =
     ''Title: B'' @ [CHR 0x0A] @ ''Relevance: 70.7%'' @ [CHR 0x0A] @ ''Content: stock markets...''"
  unfolding example_topK_markets
  by (simp add: context_of_def context_block_def percent_def join_def example_store_def
      string_eval double_eval)

lemma example_query_pets_True:
  "query engine gen example_store ''Pets?'' 3 True =
     (error_response const_assignment, example_store, [Invoked True, Fallback])"
  by (simp add: query_True tokenize_pets example_sources_pets fallbackResponse_def)

lemma example_query_markets_True:
  "query engine gen example_store ''Markets!'' 3 True =
     (\<lparr>answer = ''Based on the article '' @ [CHR 0x22] @ ''B'' @ [CHR 0x22] @ '': stock markets... '',
       sources = [\<lparr>content = ''stock markets'',
           src_metadata = \<lparr>title = ''B'', url = [], publishedAt = ''T'', source = ''unknown''\<rparr>\<rparr>],
       debug = Some (Debug True
         (''Title: B'' @ [CHR 0x0A] @ ''Relevance: 70.7%'' @ [CHR 0x0A] @ ''Content: stock markets...''))\<rparr>,
      example_store, [Invoked True, Fallback])"
  by (simp add: query_True tokenize_markets example_sources_markets example_context_markets
      fallbackResponse_def fallback_text_def)

lemma example_query_markets_down:
  "query engine service_down example_store ''Markets!'' 3 False =
     (fst (query engine service_down example_store ''Markets!'' 3 True), example_store,
      [Invoked False,
       Generate (prompt_of (context_of example_store (topK_of engine example_store ''Markets!'' 3)) ''Markets!''),
       Invoked True, Fallback])"
  by (simp add: query_False tokenize_markets example_sources_markets service_down_def
      example_query_markets_True events_def)

lemma example_query_pets_up:
  "query engine service_up example_store ''Pets?'' 3 False =
     (\<lparr>answer = ''generated'',
       sources = [\<lparr>content = ''cats pets'',
           src_metadata = \<lparr>title = ''A'', url = ''u1'', publishedAt = ''T'', source = ''unknown''\<rparr>\<rparr>],
       debug = Some (Debug False (context_of example_store (topK_of engine example_store ''Pets?'' 3)))\<rparr>,
      example_store,
      [Invoked False,
       Generate (prompt_of (context_of example_store (topK_of engine example_store ''Pets?'' 3)) ''Pets?'')])"
  by (simp add: query_False tokenize_pets example_sources_pets service_up_def)

lemma sort_by_score_mset: "mset (sort_by_score engine scores) = mset scores"
  by (simp add: sort_by_score_def)

lemma sort_by_score_set: "set (sort_by_score engine scores) = set scores"
  using sort_by_score_mset [of engine scores] by (rule mset_eq_setD)

lemma nonpositive_scores_top_k:
  "list_all (\<lambda>c. \<not> positive (score c)) scores \<Longrightarrow> top_k engine k scores = []"
proof -
  assume a: "list_all (\<lambda>c. \<not> positive (score c)) scores"
  have "set (take k (sort_by_score engine scores)) \<subseteq> set scores"
    using set_take_subset [of k "sort_by_score engine scores"] by (simp add: sort_by_score_set)
  with a have "\<forall>c \<in> set (take k (sort_by_score engine scores)). \<not> positive (score c)"
    by (fastforce simp: list_all_iff)
  then show ?thesis
    by (simp add: top_k_def filter_empty_conv)
qed

lemma rag_True_run_observed:
  "generate_calls (rag_events (rag_query engine vs gen s q k True)) = [] \<and>
   invocations (rag_events (rag_query engine vs gen s q k True)) = [True] \<and>
   fallback_runs (rag_events (rag_query engine vs gen s q k True)) \<le> 1"
  by (simp add: rag_query_True rag_events_def split: sum.splits)

lemma rag_False_run_observed:
  "length (generate_calls (rag_events (rag_query engine vs gen s q k False))) \<le> 1 \<and>
   fallback_runs (rag_events (rag_query engine vs gen s q k False)) \<le> 1 \<and>
   invocations (rag_events (rag_query engine vs gen s q k False)) =
     (case generate_calls (rag_events (rag_query engine vs gen s q k False)) of
        [] \<Rightarrow> [False]
      | p # ps \<Rightarrow> (case gen p of Inl e \<Rightarrow> [False, True] | Inr t \<Rightarrow> [False]))"
  using rag_True_run_observed [of engine vs gen "rag_initialize s" q k]
  by (simp add: rag_query_False rag_events_def [of "(a, b, c)" for a b c] split: sum.splits)

text \<open>
  C3. A run of \<^verbatim>\<open>query\<close> calls the generation service at most once and runs the
  fallback generator at most once. An invocation in fallback mode never calls the
  service and never invokes \<^verbatim>\<open>query\<close> again. An invocation with the flag off
  invokes \<^verbatim>\<open>query\<close> again exactly when its one call of the service failed, once,
  with the flag on, and returns what that invocation returns. The same counts hold
  for \<^verbatim>\<open>query\<close> of utils/rag.
\<close>

theorem at_most_one_generation_call:
  "length (generate_calls (events (query engine gen s queryText k useFallback))) \<le> 1 \<and>
   fallback_runs (events (query engine gen s queryText k useFallback)) \<le> 1 \<and>
   generate_calls (events (query engine gen s queryText k True)) = [] \<and>
   invocations (events (query engine gen s queryText k True)) = [True] \<and>
   invocations (events (query engine gen s queryText k False)) =
     (case generate_calls (events (query engine gen s queryText k False)) of
        [] \<Rightarrow> [False]
      | p # ps \<Rightarrow> (case gen p of Inl e \<Rightarrow> [False, True] | Inr t \<Rightarrow> [False])) \<and>
   (case generate_calls (events (query engine gen s queryText k False)) of
      [] \<Rightarrow> fallback_runs (events (query engine gen s queryText k False)) = 0
    | p # ps \<Rightarrow>
        (case gen p of
           Inl e \<Rightarrow>
             fst (query engine gen s queryText k False) = fst (query engine gen (initialize s) queryText k True)
         | Inr t \<Rightarrow> answer (fst (query engine gen s queryText k False)) = t \<and>
             fallback_runs (events (query engine gen s queryText k False)) = 0)) \<and>
   length (generate_calls (rag_events (rag_query engine vs gen r queryText k useFallback))) \<le> 1 \<and>
   fallback_runs (rag_events (rag_query engine vs gen r queryText k useFallback)) \<le> 1 \<and>
   generate_calls (rag_events (rag_query engine vs gen r queryText k True)) = [] \<and>
   invocations (rag_events (rag_query engine vs gen r queryText k True)) = [True] \<and>
   invocations (rag_events (rag_query engine vs gen r queryText k False)) =
     (case generate_calls (rag_events (rag_query engine vs gen r queryText k False)) of
        [] \<Rightarrow> [False]
      | p # ps \<Rightarrow> (case gen p of Inl e \<Rightarrow> [False, True] | Inr t \<Rightarrow> [False]))"
proof (cases useFallback)
  case True
  then show ?thesis
    using True_run_observed [of engine gen s queryText k] False_run_observed [of engine gen s queryText k]
      rag_True_run_observed [of engine vs gen r queryText k]
      rag_False_run_observed [of engine vs gen r queryText k]
    by simp
next
  case False
  then show ?thesis
    using True_run_observed [of engine gen s queryText k] False_run_observed [of engine gen s queryText k]
      rag_True_run_observed [of engine vs gen r queryText k]
      rag_False_run_observed [of engine vs gen r queryText k]
    by simp
qed

theorem at_most_one_generation_call_witness:
  "length (generate_calls (events (query rev service_down example_store ''Markets!'' 3 False))) = 1 \<and>
   invocations (events (query rev service_down example_store ''Markets!'' 3 False)) = [False, True] \<and>
   fallback_runs (events (query rev service_down example_store ''Markets!'' 3 False)) = 1 \<and>
   fst (query rev service_down example_store ''Markets!'' 3 False) =
     fst (query rev service_down example_store ''Markets!'' 3 True) \<and>
   length (generate_calls (events (query rev service_up example_store ''Pets?'' 3 False))) = 1 \<and>
   invocations (events (query rev service_up example_store ''Pets?'' 3 False)) = [False] \<and>
   fallback_runs (events (query rev service_up example_store ''Pets?'' 3 False)) = 0"
  using at_most_one_generation_call [of rev service_down example_store "''Markets!''" 3 False]
    at_most_one_generation_call [of rev service_up example_store "''Pets?''" 3 False]
  by (simp add: example_query_markets_down example_query_pets_up events_def)

section \<open>Ranking, the default flag and the fallback generator\<close>

lemma top_k_length: "length (top_k engine k scores) \<le> k"
proof -
  have "length (top_k engine k scores) \<le> length (take k (sort_by_score engine scores))"
    unfolding top_k_def by (rule length_filter_le)
  then show ?thesis by simp
qed

lemma map_throwing_Inr:
  "map_throwing f xs = Inr ys \<Longrightarrow> length ys = length xs \<and> (\<forall>i < length xs. f (xs ! i) = Inr (ys ! i))"
proof (induction xs arbitrary: ys)
  case Nil
  then show ?case by simp
next
  case (Cons x xs)
  from Cons.prems obtain y ys' where y: "f x = Inr y" and ys': "map_throwing f xs = Inr ys'"
    and ys: "ys = y # ys'"
    by (auto split: sum.splits)
  from Cons.IH [OF ys'] have ih: "length ys' = length xs" "\<forall>i < length xs. f (xs ! i) = Inr (ys' ! i)"
    by simp_all
  show ?case
    unfolding ys using y ih by (auto simp: nth_Cons split: nat.splits)
qed

lemma map_throwing_total:
  "list_all (\<lambda>x. \<exists>y. f x = Inr y) xs \<Longrightarrow> \<exists>ys. map_throwing f xs = Inr ys"
  by (induction xs) auto

lemma scores_of_index:
  "c \<in> set (scores_of qv vecs) \<Longrightarrow> index c < length vecs"
  by (auto simp: scores_of_def)

lemma top_k_subset: "set (top_k engine k scores) \<subseteq> set scores"
proof -
  have "set (top_k engine k scores) \<subseteq> set (take k (sort_by_score engine scores))"
    by (auto simp: top_k_def)
  also have "\<dots> \<subseteq> set (sort_by_score engine scores)"
    by (rule set_take_subset)
  finally show ?thesis by (simp add: sort_by_score_set)
qed

lemma sourceDocs_total:
  assumes "length (documents s) = length (documentVectors s)"
  shows "\<exists>sd. sourceDocs_of s (topK_of engine s q k) = Inr sd"
proof -
  have "list_all (\<lambda>c. \<exists>y. source_of (documents s) c = Inr y) (topK_of engine s q k)"
    unfolding list_all_iff topK_of_def
    using top_k_subset scores_of_index assms
    by (fastforce simp: source_of_def)
  then show ?thesis
    unfolding sourceDocs_of_def by (rule map_throwing_total)
qed

text \<open>
  The ranking step on its own: the sorted candidates are a permutation of the
  candidates; with numbers for scores they are sorted by descending score with
  equal scores left in insertion order; they are cut to the first \<open>k\<close>, and those
  whose score is not above 0 are dropped; the sources computed from them are the
  stored documents at the surviving indices, in that order.
\<close>

lemma is_num_value: "is_num x \<Longrightarrow> x = Num (num_value x)"
  by (cases x) simp_all

lemma ranking_is_stable_descending:
  assumes "list_all (\<lambda>item. is_num (score item)) scores"
  shows "mset (sort_by_score engine scores) = mset scores \<and>
   sorted (rev (map (\<lambda>item. num_value (score item)) (sort_by_score engine scores))) \<and>
   filter (\<lambda>c. score c = Num v) (sort_by_score engine scores) =
     filter (\<lambda>c. score c = Num v) scores"
proof -
  have eq: "sort_by_score engine scores = sort_key (\<lambda>item. - num_value (score item)) scores"
    using assms by (simp add: sort_by_score_def)
  have "sorted (map (\<lambda>item. - num_value (score item))
      (sort_key (\<lambda>item. - num_value (score item)) scores))"
    by (rule sorted_sort_key)
  then have "sorted (map uminus (map (\<lambda>item. num_value (score item))
      (sort_key (\<lambda>item. - num_value (score item)) scores)))"
    by (simp add: comp_def)
  then have a: "sorted (rev (map (\<lambda>item. num_value (score item)) (sort_by_score engine scores)))"
    unfolding eq by (simp add: sorted_wrt_rev sorted_map sorted_wrt_map)
  have k: "(score c = Num v) = (- num_value (score c) = - v)" if "c \<in> set scores" for c
    using that assms is_num_value [of "score c"] by (auto simp: list_all_iff)
  have "filter (\<lambda>c. score c = Num v) (sort_by_score engine scores) =
      filter (\<lambda>c. - num_value (score c) = - v) (sort_by_score engine scores)"
    by (rule filter_cong) (simp_all add: k sort_by_score_set)
  also have "\<dots> = filter (\<lambda>c. - num_value (score c) = - v) scores"
    unfolding eq by (rule sort_key_stable)
  also have "\<dots> = filter (\<lambda>c. score c = Num v) scores"
    by (rule filter_cong) (simp_all add: k)
  finally have b: "filter (\<lambda>c. score c = Num v) (sort_by_score engine scores) =
      filter (\<lambda>c. score c = Num v) scores" .
  from a b show ?thesis by (simp add: sort_by_score_mset)
qed

lemma sort_by_score_examples:
  "sort_by_score engine
     [\<lparr>index = 0, score = Num 1\<rparr>, \<lparr>index = 1, score = Num 3\<rparr>, \<lparr>index = 2, score = Num 1\<rparr>,
      \<lparr>index = 3, score = Num 3\<rparr>] =
     [\<lparr>index = 1, score = Num 3\<rparr>, \<lparr>index = 3, score = Num 3\<rparr>, \<lparr>index = 0, score = Num 1\<rparr>,
      \<lparr>index = 2, score = Num 1\<rparr>] \<and>
   sort_by_score engine
     [\<lparr>index = 0, score = Num 1\<rparr>, \<lparr>index = 1, score = NaN\<rparr>, \<lparr>index = 2, score = Num 1\<rparr>] =
     [\<lparr>index = 0, score = Num 1\<rparr>, \<lparr>index = 1, score = NaN\<rparr>, \<lparr>index = 2, score = Num 1\<rparr>] \<and>
   sort_by_score rev
     [\<lparr>index = 0, score = Num 1\<rparr>, \<lparr>index = 1, score = NaN\<rparr>, \<lparr>index = 2, score = Num 3\<rparr>] =
     [\<lparr>index = 2, score = Num 3\<rparr>, \<lparr>index = 1, score = NaN\<rparr>, \<lparr>index = 0, score = Num 1\<rparr>]"
  by (simp add: sort_by_score_def all_equal_def)

lemma sources_follow_topK:
  assumes "sourceDocs_of s topK = Inr sd"
  shows "length sd = length topK \<and>
    (\<forall>i < length topK. index (topK ! i) < length (documents s) \<and>
       content (sd ! i) = doc_text (documents s ! index (topK ! i)) \<and>
       src_metadata (sd ! i) = metadata (documents s ! index (topK ! i)))"
proof -
  from map_throwing_Inr [OF assms [unfolded sourceDocs_of_def]]
  have l: "length sd = length topK"
    and e: "\<forall>i < length topK. source_of (documents s) (topK ! i) = Inr (sd ! i)"
    by simp_all
  show ?thesis
  proof (intro conjI allI impI)
    show "length sd = length topK" by (rule l)
  next
    fix i assume "i < length topK"
    with e have src: "source_of (documents s) (topK ! i) = Inr (sd ! i)" by simp
    then show lt: "index (topK ! i) < length (documents s)"
      by (simp add: source_of_def split: if_splits)
    with src have "sd ! i =
        \<lparr>content = doc_text (documents s ! index (topK ! i)),
         src_metadata = metadata (documents s ! index (topK ! i))\<rparr>"
      by (simp add: source_of_def)
    then show "content (sd ! i) = doc_text (documents s ! index (topK ! i))"
      and "src_metadata (sd ! i) = metadata (documents s ! index (topK ! i))"
      by simp_all
  qed
qed

lemma rag_example_store_built:
  "rag_addDocuments (\<lambda>i. ''T'') rag_constructor [article_pets, article_stocks] = rag_example_store"
  by (simp add: rag_addDocuments_def rag_constructor_def rag_initialize_def rag_newDocs_def
      rag_newDoc_def dedup_step_def index_step_def urlKey_def trim_def article_pets_def
      article_stocks_def or_else_def upt_rec rag_example_store_def string_eval freq_eval)

lemma rag_example_fields [simp]:
  "rag_initialize rag_example_store = rag_example_store"
  "rag_documents rag_example_store \<noteq> []"
  "rag_documentVectors rag_example_store = documentVectors example_store"
  by (simp_all add: rag_initialize_def rag_example_store_def example_store_def)

lemma rag_example_retrieve_markets:
  "rag_retrieve engine no_vector_store rag_example_store ''Markets!'' 3 fb =
     Inr (Inr [\<lparr>rs_content = Some ''stock markets'', rs_title = Some ''B'', rs_url = Some [],
                rs_publishedAt = Some ''T'', rs_source = Some ''news_feed''\<rparr>])"
proof -
  have t: "top_k engine 3 (scores_of (getWordFreq (tokenize ''Markets!'')) (rag_documentVectors rag_example_store)) =
      [\<lparr>index = 1, score = Num (1592262918131443 / 2251799813685248)\<rparr>]"
    using example_topK_markets by (simp add: topK_of_def)
  show ?thesis
    unfolding rag_retrieve_def no_vector_store_def rag_lexical_def t
    by (simp add: tokenize_markets rag_source_of_def rag_example_store_def)
qed

lemma rag_example_retrieve_pets:
  "rag_retrieve engine no_vector_store rag_example_store ''Pets?'' 3 fb =
     Inr (Inr [\<lparr>rs_content = Some ''cats pets'', rs_title = Some ''A'', rs_url = Some ''u1'',
                rs_publishedAt = Some ''T'', rs_source = Some ''news_feed''\<rparr>])"
proof -
  have t: "top_k engine 3 (scores_of (getWordFreq (tokenize ''Pets?'')) (rag_documentVectors rag_example_store)) =
      [\<lparr>index = 0, score = Num (1592262918131443 / 2251799813685248)\<rparr>]"
    using example_topK_pets by (simp add: topK_of_def)
  show ?thesis
    unfolding rag_retrieve_def no_vector_store_def rag_lexical_def t
    by (simp add: tokenize_pets rag_source_of_def rag_example_store_def)
qed

lemma rag_example_context_markets:
  "rag_context_of [\<lparr>rs_content = Some ''stock markets'', rs_title = Some ''B'', rs_url = Some [],
                rs_publishedAt = Some ''T'', rs_source = Some ''news_feed''\<rparr>] =
     Inr (''Title: B'' @ [CHR 0x0A] @ ''Source: '' @ [CHR 0x0A] @ ''Content: stock markets...'')"
  by (simp add: rag_context_of_def rag_context_block_def join_def or_else_def)

lemma rag_example_context_pets:
  "rag_context_of [\<lparr>rs_content = Some ''cats pets'', rs_title = Some ''A'', rs_url = Some ''u1'',
                rs_publishedAt = Some ''T'', rs_source = Some ''news_feed''\<rparr>] =
     Inr (''Title: A'' @ [CHR 0x0A] @ ''Source: u1'' @ [CHR 0x0A] @ ''Content: cats pets...'')"
  by (simp add: rag_context_of_def rag_context_block_def join_def or_else_def)

text \<open>
  The fallback generator of utils/rag always writes the read-more clause, with a
  placeholder when the top-ranked document has no URL.
\<close>

lemma rag_fallback_answers:
  "rag_answer (fst (rag_query engine no_vector_store gen rag_example_store ''Pets?'' 3 True)) =
     ''Based on the article '' @ [CHR 0x22] @ ''A'' @ [CHR 0x22] @ '': cats pets... ''
       @ ''[Read more: u1]'' \<and>
   rag_answer (fst (rag_query engine no_vector_store gen rag_example_store ''Markets!'' 3 True)) =
     ''Based on the article '' @ [CHR 0x22] @ ''B'' @ [CHR 0x22] @ '': stock markets... ''
       @ ''[Read more: No URL provided]''"
  by (simp add: rag_query_True rag_example_retrieve_pets rag_example_retrieve_markets
      rag_example_context_pets rag_example_context_markets rag_fallbackResponse_def
      interpolate_def or_else_def)

lemma rag_False_fallback_after_failure:
  "(case generate_calls (rag_events (rag_query engine vs gen s q k False)) of
      [] \<Rightarrow> fallback_runs (rag_events (rag_query engine vs gen s q k False)) = 0
    | p # ps \<Rightarrow>
        (case gen p of
           Inl e \<Rightarrow>
             fst (rag_query engine vs gen s q k False) =
               fst (rag_query engine vs gen (rag_initialize s) q k True) \<and>
             rag_events (rag_query engine vs gen s q k False) =
               Invoked False # Generate p
                 # rag_events (rag_query engine vs gen (rag_initialize s) q k True)
         | Inr t \<Rightarrow> rag_answer (fst (rag_query engine vs gen s q k False)) = t \<and>
             fallback_runs (rag_events (rag_query engine vs gen s q k False)) = 0))"
  using rag_True_run_observed [of engine vs gen "rag_initialize s" q k]
  by (simp add: rag_query_False rag_events_def [of "(a, b, c)" for a b c] split: sum.splits)

text \<open>
  C9. In rag.new.js the third parameter of \<^verbatim>\<open>query\<close> defaults to \<^verbatim>\<open>true\<close>: a call
  that leaves the flag out is the call with the flag on, it never calls the
  generation service, and it runs the fallback generator whenever retrieval yields
  a document; the generation service is called, before anything else is tried,
  only when the flag is passed as \<^verbatim>\<open>false\<close>. In utils/rag the parameter defaults to
  \<^verbatim>\<open>false\<close>: a call that leaves the flag out calls the generation service first
  whenever retrieval yields sources and a context, and it runs the fallback
  generator only after that call has failed: a run with no call of the service or
  with a call that succeeded has no run of the fallback generator, and after a
  failed call the rest of the run is the invocation with the flag on.
\<close>

theorem default_flag_is_fallback:
  "query_default engine gen s queryText = query engine gen s queryText 3 True \<and>
   generate_calls (events (query_default engine gen s queryText)) = [] \<and>
   (documents s \<noteq> [] \<and> tokenize queryText \<noteq> [] \<and>
    topK_of engine (initialize s) queryText k \<noteq> [] \<and>
    sourceDocs_of (initialize s) (topK_of engine (initialize s) queryText k) = Inr sd \<longrightarrow>
      events (query engine gen s queryText k True) = [Invoked True, Fallback] \<and>
      take 2 (events (query engine gen s queryText k False)) =
        [Invoked False,
         Generate (prompt_of (context_of (initialize s) (topK_of engine (initialize s) queryText k))
           queryText)]) \<and>
   rag_query_default engine vs gen r queryText = rag_query engine vs gen r queryText 3 False \<and>
   (rag_retrieve engine vs (rag_initialize r) queryText 3 False = Inr (Inr found) \<and>
    rag_context_of found = Inr ctx \<longrightarrow>
      take 2 (rag_events (rag_query_default engine vs gen r queryText)) =
        [Invoked False, Generate (prompt_of ctx queryText)]) \<and>
   (case generate_calls (rag_events (rag_query_default engine vs gen r queryText)) of
      [] \<Rightarrow> fallback_runs (rag_events (rag_query_default engine vs gen r queryText)) = 0
    | p # ps \<Rightarrow>
        (case gen p of
           Inl e \<Rightarrow>
             fst (rag_query_default engine vs gen r queryText) =
               fst (rag_query engine vs gen (rag_initialize r) queryText 3 True) \<and>
             rag_events (rag_query_default engine vs gen r queryText) =
               Invoked False # Generate p
                 # rag_events (rag_query engine vs gen (rag_initialize r) queryText 3 True)
         | Inr t \<Rightarrow> rag_answer (fst (rag_query_default engine vs gen r queryText)) = t \<and>
             fallback_runs (rag_events (rag_query_default engine vs gen r queryText)) = 0))"
proof -
  have "generate_calls (events (query_default engine gen s queryText)) = []"
    unfolding query_default_def using True_run_observed [of engine gen s queryText 3] by simp
  moreover have "events (query engine gen s queryText k True) = [Invoked True, Fallback]"
    if "documents s \<noteq> []" "tokenize queryText \<noteq> []"
      "topK_of engine (initialize s) queryText k \<noteq> []"
      "sourceDocs_of (initialize s) (topK_of engine (initialize s) queryText k) = Inr sd"
    using that by (simp add: query_True events_def split: sum.splits)
  moreover have "take 2 (events (query engine gen s queryText k False)) =
      [Invoked False,
       Generate (prompt_of (context_of (initialize s) (topK_of engine (initialize s) queryText k))
         queryText)]"
    if "documents s \<noteq> []" "tokenize queryText \<noteq> []"
      "topK_of engine (initialize s) queryText k \<noteq> []"
      "sourceDocs_of (initialize s) (topK_of engine (initialize s) queryText k) = Inr sd"
    using that by (simp add: query_False events_def split: sum.splits)
  moreover have "take 2 (rag_events (rag_query_default engine vs gen r queryText)) =
      [Invoked False, Generate (prompt_of ctx queryText)]"
    if "rag_retrieve engine vs (rag_initialize r) queryText 3 False = Inr (Inr found)"
      "rag_context_of found = Inr ctx"
    using that
    by (simp add: rag_query_default_def rag_query_False rag_events_def split: sum.splits)
  moreover note rag_False_fallback_after_failure [of engine vs gen r queryText 3]
  ultimately show ?thesis
    unfolding query_default_def rag_query_default_def by blast
qed

lemma rag_example_query_markets_True:
  "rag_events (rag_query engine no_vector_store gen rag_example_store ''Markets!'' 3 True) =
     [Invoked True, Fallback]"
  by (simp add: rag_query_True rag_example_retrieve_markets rag_example_context_markets
      rag_fallbackResponse_def interpolate_def or_else_def rag_events_def)

lemma rag_example_query_markets_False:
  "rag_events (rag_query engine no_vector_store service_down rag_example_store ''Markets!'' 3 False) =
     [Invoked False,
      Generate (prompt_of (''Title: B'' @ [CHR 0x0A] @ ''Source: '' @ [CHR 0x0A]
        @ ''Content: stock markets...'') ''Markets!''),
      Invoked True, Fallback] \<and>
   rag_events (rag_query engine no_vector_store service_up rag_example_store ''Markets!'' 3 False) =
     [Invoked False,
      Generate (prompt_of (''Title: B'' @ [CHR 0x0A] @ ''Source: '' @ [CHR 0x0A]
        @ ''Content: stock markets...'') ''Markets!'')] \<and>
   rag_answer (fst (rag_query engine no_vector_store service_up rag_example_store ''Markets!'' 3 False)) =
     ''generated''"
  using rag_example_query_markets_True [of engine service_down]
  by (simp add: rag_query_False rag_example_retrieve_markets rag_example_context_markets
      service_down_def service_up_def rag_events_def)

theorem default_flag_is_fallback_witness:
  "query_default rev service_up example_store ''Markets!'' =
     query rev service_up example_store ''Markets!'' 3 True \<and>
   events (query rev service_up example_store ''Markets!'' 3 True) = [Invoked True, Fallback] \<and>
   take 2 (events (query rev service_up example_store ''Markets!'' 3 False)) =
     [Invoked False,
      Generate (prompt_of (context_of example_store (topK_of rev example_store ''Markets!'' 3))
        ''Markets!'')] \<and>
   take 2 (rag_events (rag_query_default rev no_vector_store service_up rag_example_store ''Markets!'')) =
     [Invoked False,
      Generate (prompt_of (''Title: B'' @ [CHR 0x0A] @ ''Source: '' @ [CHR 0x0A]
        @ ''Content: stock markets...'') ''Markets!'')] \<and>
   rag_answer (fst (rag_query_default rev no_vector_store service_up rag_example_store ''Markets!'')) =
     ''generated'' \<and>
   fallback_runs
     (rag_events (rag_query_default rev no_vector_store service_up rag_example_store ''Markets!'')) = 0 \<and>
   rag_events (rag_query_default rev no_vector_store service_down rag_example_store ''Markets!'') =
     Invoked False
       # Generate (prompt_of (''Title: B'' @ [CHR 0x0A] @ ''Source: '' @ [CHR 0x0A]
           @ ''Content: stock markets...'') ''Markets!'')
       # rag_events (rag_query rev no_vector_store service_down rag_example_store ''Markets!'' 3 True) \<and>
   rag_events (rag_query rev no_vector_store service_down rag_example_store ''Markets!'' 3 True) =
     [Invoked True, Fallback]"
proof -
  note up = default_flag_is_fallback [where engine = rev and gen = service_up
      and s = example_store and queryText = "''Markets!''" and k = 3
      and sd = "[\<lparr>content = ''stock markets'',
           src_metadata = \<lparr>title = ''B'', url = [], publishedAt = ''T'', source = ''unknown''\<rparr>\<rparr>]"
      and vs = no_vector_store and r = rag_example_store
      and found = "[\<lparr>rs_content = Some ''stock markets'', rs_title = Some ''B'', rs_url = Some [],
                rs_publishedAt = Some ''T'', rs_source = Some ''news_feed''\<rparr>]"
      and ctx = "''Title: B'' @ [CHR 0x0A] @ ''Source: '' @ [CHR 0x0A] @ ''Content: stock markets...''"]
  note down = default_flag_is_fallback [where engine = rev and gen = service_down
      and s = example_store and queryText = "''Markets!''" and k = 3
      and vs = no_vector_store and r = rag_example_store]
  have a: "tokenize ''Markets!'' \<noteq> []"
    by (simp add: tokenize_markets)
  have b: "topK_of rev (initialize example_store) ''Markets!'' 3 \<noteq> []"
    by simp
  have c: "sourceDocs_of (initialize example_store)
      (topK_of rev (initialize example_store) ''Markets!'' 3) =
     Inr [\<lparr>content = ''stock markets'',
           src_metadata = \<lparr>title = ''B'', url = [], publishedAt = ''T'', source = ''unknown''\<rparr>\<rparr>]"
    by (simp add: example_sources_markets)
  have d: "rag_retrieve rev no_vector_store (rag_initialize rag_example_store) ''Markets!'' 3 False =
      Inr (Inr [\<lparr>rs_content = Some ''stock markets'', rs_title = Some ''B'', rs_url = Some [],
                rs_publishedAt = Some ''T'', rs_source = Some ''news_feed''\<rparr>])"
    by (simp add: rag_example_retrieve_markets)
  have e: "rag_context_of [\<lparr>rs_content = Some ''stock markets'', rs_title = Some ''B'',
        rs_url = Some [], rs_publishedAt = Some ''T'', rs_source = Some ''news_feed''\<rparr>] =
      Inr (''Title: B'' @ [CHR 0x0A] @ ''Source: '' @ [CHR 0x0A] @ ''Content: stock markets...'')"
    by (rule rag_example_context_markets)
  have f: "generate_calls
      (rag_events (rag_query_default rev no_vector_store service_up rag_example_store ''Markets!'')) =
      [prompt_of (''Title: B'' @ [CHR 0x0A] @ ''Source: '' @ [CHR 0x0A]
        @ ''Content: stock markets...'') ''Markets!'']"
    and g: "generate_calls
      (rag_events (rag_query_default rev no_vector_store service_down rag_example_store ''Markets!'')) =
      [prompt_of (''Title: B'' @ [CHR 0x0A] @ ''Source: '' @ [CHR 0x0A]
        @ ''Content: stock markets...'') ''Markets!'']"
    using rag_example_query_markets_False [of rev]
    by (simp_all add: rag_query_default_def)
  from up a b c d e f have
    "query_default rev service_up example_store ''Markets!'' =
       query rev service_up example_store ''Markets!'' 3 True"
    "events (query rev service_up example_store ''Markets!'' 3 True) = [Invoked True, Fallback]"
    "take 2 (events (query rev service_up example_store ''Markets!'' 3 False)) =
     [Invoked False,
      Generate (prompt_of (context_of example_store (topK_of rev example_store ''Markets!'' 3))
        ''Markets!'')]"
    "take 2 (rag_events (rag_query_default rev no_vector_store service_up rag_example_store ''Markets!'')) =
     [Invoked False,
      Generate (prompt_of (''Title: B'' @ [CHR 0x0A] @ ''Source: '' @ [CHR 0x0A]
        @ ''Content: stock markets...'') ''Markets!'')]"
    "rag_answer (fst (rag_query_default rev no_vector_store service_up rag_example_store ''Markets!'')) =
     ''generated''"
    "fallback_runs
     (rag_events (rag_query_default rev no_vector_store service_up rag_example_store ''Markets!'')) = 0"
    by (simp_all add: service_up_def query_default_def rag_query_default_def)
  moreover from down g have
    "rag_events (rag_query_default rev no_vector_store service_down rag_example_store ''Markets!'') =
     Invoked False
       # Generate (prompt_of (''Title: B'' @ [CHR 0x0A] @ ''Source: '' @ [CHR 0x0A]
           @ ''Content: stock markets...'') ''Markets!'')
       # rag_events (rag_query rev no_vector_store service_down rag_example_store ''Markets!'' 3 True)"
    by (simp add: service_down_def rag_query_default_def)
  moreover note rag_example_query_markets_True [of rev service_down]
  ultimately show ?thesis by blast
qed

theorem default_query_skips_generation:
  "generate_calls (events (query_default rev service_up example_store ''Markets!'')) = [] \<and>
   fallback_runs (events (query_default rev service_up example_store ''Markets!'')) = 1 \<and>
   debug (fst (query_default rev service_up example_store ''Markets!'')) =
     Some (Debug True (''Title: B'' @ [CHR 0x0A] @ ''Relevance: 70.7%'' @ [CHR 0x0A]
       @ ''Content: stock markets...''))"
  by (simp add: query_default_def example_query_markets_True events_def)

text \<open>
  C5. With the flag on and a top-ranked document that has a URL, the fallback
  generator of rag.new.js does not return its template: the statement that is to
  append the read-more clause assigns to a \<^verbatim>\<open>const\<close> binding and throws, and \<^verbatim>\<open>query\<close>
  returns the error answer with no sources. The template without the clause is
  returned for a top-ranked document that has no URL.
\<close>

theorem fallback_with_url_fails:
  "url (metadata (documents example_store ! 0)) = ''u1'' \<and>
   topK_of engine example_store ''Pets?'' 3 = [\<lparr>index = 0, score = Num (1592262918131443 / 2251799813685248)\<rparr>] \<and>
   query_default engine gen example_store ''Pets?'' =
     (error_response const_assignment, example_store, [Invoked True, Fallback]) \<and>
   answer (error_response const_assignment) =
     ''I'' @ [CHR 0x27] @ ''m sorry, I encountered an error while processing your request. ''
       @ ''The error was: Assignment to constant variable.'' \<and>
   debug (error_response const_assignment) =
     Some (DebugError (Some ''Assignment to constant variable.'')) \<and>
   answer (fst (query_default engine gen example_store ''Markets!'')) =
     ''Based on the article '' @ [CHR 0x22] @ ''B'' @ [CHR 0x22] @ '': stock markets... ''"
proof -
  have "url (metadata (documents example_store ! 0)) = ''u1''"
    by (simp add: example_store_def)
  moreover have "answer (error_response const_assignment) =
     ''I'' @ [CHR 0x27] @ ''m sorry, I encountered an error while processing your request. ''
       @ ''The error was: Assignment to constant variable.''"
    and "debug (error_response const_assignment) =
     Some (DebugError (Some ''Assignment to constant variable.''))"
    by (simp_all add: error_response_def const_assignment_def falsy_def or_else_def)
  moreover have "query_default engine gen example_store ''Pets?'' =
     (error_response const_assignment, example_store, [Invoked True, Fallback])"
    by (simp add: query_default_def example_query_pets_True)
  moreover have "answer (fst (query_default engine gen example_store ''Markets!'')) =
     ''Based on the article '' @ [CHR 0x22] @ ''B'' @ [CHR 0x22] @ '': stock markets... ''"
    by (simp add: query_default_def example_query_markets_True)
  ultimately show ?thesis
    using example_topK_pets by blast
qed

text \<open>
  Where the fallback generator does not throw, \<open>sources\<close> of the response are the
  documents that survive the ranking; where it throws they are lost.
\<close>

lemma sources_returned_unless_thrown:
  assumes "documents s \<noteq> []" and "tokenize q \<noteq> []"
    and "topK_of engine (initialize s) q k \<noteq> []"
    and "sourceDocs_of (initialize s) (topK_of engine (initialize s) q k) = Inr sd"
  shows "sources (fst (query engine gen s q k True)) = (if url (src_metadata (hd sd)) = [] then sd else [])"
    and "gen (prompt_of (context_of (initialize s) (topK_of engine (initialize s) q k)) q) = Inr t \<Longrightarrow>
      sources (fst (query engine gen s q k False)) = sd"
  using assms
  by (simp_all add: query_True query_False fallbackResponse_def error_response_def)

lemma rag_context_contents:
  "map_throwing rag_context_block sd = Inr blocks \<Longrightarrow> list_all (\<lambda>d. rs_content d \<noteq> None) sd"
proof (induction sd arbitrary: blocks)
  case Nil
  then show ?case by simp
next
  case (Cons d sd)
  then show ?case
    by (auto simp: rag_context_block_def split: sum.splits option.splits)
qed

lemma rag_sources_returned:
  assumes "rag_retrieve engine vs (rag_initialize r) q k fb = Inr (Inr sd)"
    and "rag_context_of sd = Inr ctx" and "sd \<noteq> []"
    and "fb \<or> (\<exists>t. gen (prompt_of ctx q) = Inr t)"
  shows "rag_sources (fst (rag_query engine vs gen r q k fb)) = sd"
proof -
  from assms(2) obtain blocks where "map_throwing rag_context_block sd = Inr blocks"
    by (auto simp: rag_context_of_def split: sum.splits)
  from rag_context_contents [OF this] assms(3)
  obtain text_out where f: "rag_fallbackResponse sd = Inr text_out"
    by (cases sd) (auto simp: rag_fallbackResponse_def)
  show ?thesis
  proof (cases fb)
    case True
    then show ?thesis
      using assms(1,2) f by (simp add: rag_query_True)
  next
    case False
    with assms(4) obtain t where "gen (prompt_of ctx q) = Inr t" by blast
    then show ?thesis
      using False assms(1,2) by (simp add: rag_query_False)
  qed
qed

text \<open>
  C2. At the same input the documents that survive the ranking are not what
  \<^verbatim>\<open>query\<close> returns: the top-ranked document scores above 0, and \<open>sources\<close> of the
  response is empty.
\<close>

theorem ranked_sources_lost:
  "documents example_store \<noteq> [] \<and> tokenize ''Pets?'' = [''pets''] \<and>
   sourceDocs_of example_store (topK_of engine example_store ''Pets?'' 3) =
     Inr [\<lparr>content = ''cats pets'',
           src_metadata = \<lparr>title = ''A'', url = ''u1'', publishedAt = ''T'', source = ''unknown''\<rparr>\<rparr>] \<and>
   sources (fst (query engine gen example_store ''Pets?'' 3 True)) = [] \<and>
   sources (fst (query engine service_down example_store ''Pets?'' 3 False)) = []"
proof -
  have "fst (query engine service_down example_store ''Pets?'' 3 False) = error_response const_assignment"
    by (simp add: query_False tokenize_pets example_sources_pets service_down_def
        example_query_pets_True)
  then show ?thesis
    by (simp add: example_query_pets_True tokenize_pets example_sources_pets error_response_def)
qed

section \<open>Cosine similarity in double precision\<close>

lemma pow2_powi: "pow2 e = 2 powi e"
  by (simp add: pow2_def power_int_def inverse_eq_divide power_one_over)

lemma pow2_pos [simp]: "0 < pow2 e"
  by (simp add: pow2_powi)











































text \<open>
  The tokens \<^verbatim>\<open>constructor\<close> and \<^verbatim>\<open>__proto__\<close> name properties that the frequency
  object inherits: the first is stored as a string, the second is not stored.
\<close>

lemma tokenize_inherited:
  "tokenize ''constructor __proto__ constructor'' = [''constructor'', ''__proto__'', ''constructor'']"
  by (simp add: string_eval)






section \<open>Deduplication and the result of addDocuments\<close>

lemma add_document_url:
  "map (\<lambda>d. url (metadata d)) (documents (add_document now s doc)) =
   map (\<lambda>d. url (metadata d)) (documents s) @ (if accepted doc then [or_else (in_url doc) []] else [])"
  by (simp add: add_document_def accepted_def make_document_def)

lemma add_loop_urls:
  "map (\<lambda>d. url (metadata d)) (documents (add_loop clock i s docs)) =
   map (\<lambda>d. url (metadata d)) (documents s) @ map (\<lambda>d. or_else (in_url d) []) (filter accepted docs)"
  by (induction docs arbitrary: i s) (simp_all add: add_document_url)

lemma add_loop_count:
  "length (documents (add_loop clock i s docs)) = length (documents s) + length (filter accepted docs)"
  using arg_cong [OF add_loop_urls [of clock i s docs], of length] by simp

lemma dedup_step_pair:
  "dedup_step (toIndex, urlSet) doc =
     (if urlKey doc \<noteq> [] \<and> urlKey doc \<in> urlSet then (toIndex, urlSet)
      else (toIndex @ [doc], if urlKey doc \<noteq> [] then insert (urlKey doc) urlSet else urlSet))"
  by (simp add: dedup_step_def)

lemma dedup_fold_invariant:
  assumes "distinct (nonempty_keys (stored @ acc))" and "seen = set (nonempty_keys (stored @ acc))"
    and "foldl dedup_step (acc, seen) ds = (acc', seen')"
  shows "distinct (nonempty_keys (stored @ acc')) \<and> seen' = set (nonempty_keys (stored @ acc'))"
  using assms
proof (induction ds arbitrary: acc seen)
  case Nil
  then show ?case by auto
next
  case (Cons d ds)
  show ?case
  proof (cases "urlKey d \<noteq> [] \<and> urlKey d \<in> seen")
    case True
    then have "foldl dedup_step (acc, seen) ds = (acc', seen')"
      using Cons.prems(3) by (simp add: dedup_step_pair)
    from Cons.IH [OF Cons.prems(1) Cons.prems(2) this] show ?thesis .
  next
    case False
    define seen2 where "seen2 = (if urlKey d \<noteq> [] then insert (urlKey d) seen else seen)"
    have step: "foldl dedup_step (acc @ [d], seen2) ds = (acc', seen')"
      using Cons.prems(3) False by (simp add: dedup_step_pair seen2_def)
    have d1: "distinct (nonempty_keys (stored @ acc @ [d]))"
      using Cons.prems(1,2) False by (auto simp: nonempty_keys_def)
    have d2: "seen2 = set (nonempty_keys (stored @ acc @ [d]))"
      using Cons.prems(2) by (auto simp: nonempty_keys_def seen2_def)
    from Cons.IH [of "acc @ [d]" seen2] d1 d2 step show ?thesis by simp
  qed
qed

lemma dedup_fold_per_key:
  "foldl dedup_step (acc, seen) ds = (acc', seen') \<Longrightarrow>
   filter (\<lambda>d. urlKey d = k) acc' =
     filter (\<lambda>d. urlKey d = k) acc @
       (if k = [] then filter (\<lambda>d. urlKey d = k) ds
        else if k \<in> seen then [] else take 1 (filter (\<lambda>d. urlKey d = k) ds)) \<and>
   seen' = seen \<union> set (nonempty_keys ds)"
proof (induction ds arbitrary: acc seen)
  case Nil
  then show ?case by (simp add: nonempty_keys_def)
next
  case (Cons d ds)
  show ?case
  proof (cases "urlKey d \<noteq> [] \<and> urlKey d \<in> seen")
    case True
    then have "foldl dedup_step (acc, seen) ds = (acc', seen')"
      using Cons.prems by (simp add: dedup_step_pair)
    from Cons.IH [OF this] True show ?thesis
      by (auto simp: nonempty_keys_def)
  next
    case False
    define seen2 where "seen2 = (if urlKey d \<noteq> [] then insert (urlKey d) seen else seen)"
    have step: "foldl dedup_step (acc @ [d], seen2) ds = (acc', seen')"
      using Cons.prems False by (simp add: dedup_step_pair seen2_def)
    from Cons.IH [OF step] False show ?thesis
      by (auto simp: nonempty_keys_def seen2_def)
  qed
qed

lemma dedup_fold_count:
  "foldl dedup_step (acc, seen) ds = (acc', seen') \<Longrightarrow>
   length acc' =
     length acc + length (filter (\<lambda>d. urlKey d = []) ds) + card (set (nonempty_keys ds) - seen)"
proof (induction ds arbitrary: acc seen)
  case Nil
  then show ?case by (simp add: nonempty_keys_def)
next
  case (Cons d ds)
  show ?case
  proof (cases "urlKey d \<noteq> [] \<and> urlKey d \<in> seen")
    case True
    then have "foldl dedup_step (acc, seen) ds = (acc', seen')"
      using Cons.prems by (simp add: dedup_step_pair)
    from Cons.IH [OF this] have "length acc' =
        length acc + length (filter (\<lambda>d. urlKey d = []) ds) + card (set (nonempty_keys ds) - seen)" .
    moreover have "set (nonempty_keys (d # ds)) - seen = set (nonempty_keys ds) - seen"
      using True by (auto simp: nonempty_keys_def)
    ultimately show ?thesis using True by simp
  next
    case False
    show ?thesis
    proof (cases "urlKey d = []")
      case True
      then have step: "foldl dedup_step (acc @ [d], seen) ds = (acc', seen')"
        using Cons.prems by (simp add: dedup_step_pair)
      have "nonempty_keys (d # ds) = nonempty_keys ds"
        using True by (simp add: nonempty_keys_def)
      with Cons.IH [OF step] True show ?thesis by simp
    next
      case ne: False
      with False have notin: "urlKey d \<notin> seen" by simp
      have step: "foldl dedup_step (acc @ [d], insert (urlKey d) seen) ds = (acc', seen')"
        using Cons.prems ne notin by (simp add: dedup_step_pair)
      have "set (nonempty_keys (d # ds)) - seen =
          insert (urlKey d) (set (nonempty_keys ds) - insert (urlKey d) seen)"
        using ne notin by (auto simp: nonempty_keys_def)
      then have "card (set (nonempty_keys (d # ds)) - seen) =
          Suc (card (set (nonempty_keys ds) - insert (urlKey d) seen))"
        by simp
      with Cons.IH [OF step] ne show ?thesis by simp
    qed
  qed
qed

lemma rag_addDocuments_unfold:
  "foldl dedup_step ([], rag_urlSet s) (rag_newDocs clock docs) = (toIndex, seen) \<Longrightarrow>
   rag_documents (rag_addDocuments clock s docs) = rag_documents s @ toIndex \<and>
   rag_documentVectors (rag_addDocuments clock s docs) =
     rag_documentVectors s @ map vector_of toIndex \<and>
   rag_urlSet (rag_addDocuments clock s docs) = seen"
  by (simp add: rag_addDocuments_def index_loop_documents index_loop_vectors index_loop_urlSet
      vector_of_def)


lemma rag_addDocuments_split:
  "\<exists>toIndex seen. foldl dedup_step ([], rag_urlSet s) (rag_newDocs clock docs) = (toIndex, seen)"
  by (cases "foldl dedup_step ([], rag_urlSet s) (rag_newDocs clock docs)") simp

lemma rag_addDocuments_deduplicated:
  assumes "distinct (nonempty_keys (rag_documents s))"
    and "rag_urlSet s = set (nonempty_keys (rag_documents s))"
  shows "distinct (nonempty_keys (rag_documents (rag_addDocuments clock s docs))) \<and>
    rag_urlSet (rag_addDocuments clock s docs) =
      set (nonempty_keys (rag_documents (rag_addDocuments clock s docs)))"
proof -
  obtain toIndex seen
    where f: "foldl dedup_step ([], rag_urlSet s) (rag_newDocs clock docs) = (toIndex, seen)"
    using rag_addDocuments_split by blast
  from dedup_fold_invariant [of "rag_documents s" "[]" "rag_urlSet s", OF _ _ f] assms
  have "distinct (nonempty_keys (rag_documents s @ toIndex))"
    and "seen = set (nonempty_keys (rag_documents s @ toIndex))"
    by simp_all
  then show ?thesis
    using rag_addDocuments_unfold [OF f] by simp
qed

lemma rag_run_deduplicated:
  assumes "distinct (nonempty_keys (rag_documents s))"
    and "rag_urlSet s = set (nonempty_keys (rag_documents s))"
  shows "distinct (nonempty_keys (rag_documents (rag_run s calls))) \<and>
    rag_urlSet (rag_run s calls) = set (nonempty_keys (rag_documents (rag_run s calls)))"
  using assms unfolding rag_run_def
proof (induction calls arbitrary: s)
  case Nil
  then show ?case by simp
next
  case (Cons c calls)
  have "distinct (nonempty_keys (rag_documents (rag_call s c))) \<and>
      rag_urlSet (rag_call s c) = set (nonempty_keys (rag_documents (rag_call s c)))"
  proof (cases c)
    case (AddDocuments clock docs)
    then show ?thesis
      using rag_addDocuments_deduplicated [OF Cons.prems] by simp
  next
    case Clear
    then show ?thesis by (simp add: rag_clear_def nonempty_keys_def)
  qed
  then show ?case
    using Cons.IH [of "rag_call s c"] by simp
qed

lemma distinct_keys_once:
  assumes "distinct (nonempty_keys ds)"
  shows "length (filter (\<lambda>d. urlKey d = k \<and> k \<noteq> []) ds) =
    (if k \<noteq> [] \<and> k \<in> set (nonempty_keys ds) then 1 else 0)"
proof (cases "k = []")
  case True
  then show ?thesis by simp
next
  case False
  have "length (filter (\<lambda>d. urlKey d = k) ds) = length (filter (\<lambda>x. x = k) (map urlKey ds))"
    by (induction ds) simp_all
  also have "filter (\<lambda>x. x = k) (map urlKey ds) = filter (\<lambda>x. x = k) (nonempty_keys ds)"
    using False by (induction ds) (auto simp: nonempty_keys_def)
  also have "length \<dots> = card ({x. x = k} \<inter> set (nonempty_keys ds))"
    using assms by (rule distinct_length_filter)
  also have "\<dots> = (if k \<in> set (nonempty_keys ds) then 1 else 0)"
    by simp
  finally show ?thesis using False by simp
qed

text \<open>
  C1. \<^verbatim>\<open>addDocuments\<close> of rag.new.js does not look at URLs: the URLs of the stored
  documents are, in order, the URLs of all input documents that have a text and a
  title. \<^verbatim>\<open>addDocuments\<close> of utils/rag deduplicates: after any sequence of
  \<^verbatim>\<open>addDocuments\<close> and \<^verbatim>\<open>clear\<close> calls no two stored documents have the same non-empty
  trimmed URL, and the URL set holds exactly the non-empty trimmed URLs of the stored
  documents; one call appends, for a key not yet in the URL set, the first new
  document with that key and none of the later ones, for a key in the URL set
  nothing, and every new document with an empty key; it appends one vector for
  each appended document and records the non-empty keys.
\<close>

theorem deduplication_by_url:
  "map (\<lambda>d. url (metadata d)) (documents (snd (addDocuments clock s docs))) =
     map (\<lambda>d. url (metadata d)) (documents s)
       @ map (\<lambda>d. or_else (in_url d) []) (filter accepted docs) \<and>
   distinct (nonempty_keys (rag_documents (rag_run rag_constructor calls))) \<and>
   rag_urlSet (rag_run rag_constructor calls) =
     set (nonempty_keys (rag_documents (rag_run rag_constructor calls))) \<and>
   length (filter (\<lambda>d. urlKey d = k \<and> k \<noteq> []) (rag_documents (rag_run rag_constructor calls))) =
     (if k \<noteq> [] \<and> k \<in> rag_urlSet (rag_run rag_constructor calls) then 1 else 0) \<and>
   filter (\<lambda>d. urlKey d = k) (rag_documents (rag_addDocuments clock r docs)) =
     filter (\<lambda>d. urlKey d = k) (rag_documents r) @
       (if k = [] then filter (\<lambda>d. urlKey d = k) (rag_newDocs clock docs)
        else if k \<in> rag_urlSet r then []
        else take 1 (filter (\<lambda>d. urlKey d = k) (rag_newDocs clock docs))) \<and>
   rag_urlSet (rag_addDocuments clock r docs) =
     rag_urlSet r \<union> set (nonempty_keys (rag_newDocs clock docs)) \<and>
   rag_documentVectors (rag_addDocuments clock r docs) =
     rag_documentVectors r
       @ map vector_of (drop (length (rag_documents r)) (rag_documents (rag_addDocuments clock r docs)))"
proof -
  have new: "map (\<lambda>d. url (metadata d)) (documents (snd (addDocuments clock s docs))) =
     map (\<lambda>d. url (metadata d)) (documents s)
       @ map (\<lambda>d. or_else (in_url d) []) (filter accepted docs)"
    by (simp add: addDocuments_def add_loop_urls)
  have run: "distinct (nonempty_keys (rag_documents (rag_run rag_constructor calls))) \<and>
      rag_urlSet (rag_run rag_constructor calls) =
        set (nonempty_keys (rag_documents (rag_run rag_constructor calls)))"
    by (rule rag_run_deduplicated) (simp_all add: rag_constructor_def nonempty_keys_def)
  have once: "length (filter (\<lambda>d. urlKey d = k \<and> k \<noteq> [])
        (rag_documents (rag_run rag_constructor calls))) =
     (if k \<noteq> [] \<and> k \<in> rag_urlSet (rag_run rag_constructor calls) then 1 else 0)"
    using distinct_keys_once [of "rag_documents (rag_run rag_constructor calls)" k] run by simp
  obtain toIndex seen
    where f: "foldl dedup_step ([], rag_urlSet r) (rag_newDocs clock docs) = (toIndex, seen)"
    using rag_addDocuments_split by blast
  note u = rag_addDocuments_unfold [OF f]
  note p = dedup_fold_per_key [OF f, of k]
  have call: "filter (\<lambda>d. urlKey d = k) (rag_documents (rag_addDocuments clock r docs)) =
     filter (\<lambda>d. urlKey d = k) (rag_documents r) @
       (if k = [] then filter (\<lambda>d. urlKey d = k) (rag_newDocs clock docs)
        else if k \<in> rag_urlSet r then []
        else take 1 (filter (\<lambda>d. urlKey d = k) (rag_newDocs clock docs)))"
    using u p by simp
  have keys: "rag_urlSet (rag_addDocuments clock r docs) =
     rag_urlSet r \<union> set (nonempty_keys (rag_newDocs clock docs))"
    using u p by simp
  have vecs: "rag_documentVectors (rag_addDocuments clock r docs) =
     rag_documentVectors r
       @ map vector_of (drop (length (rag_documents r)) (rag_documents (rag_addDocuments clock r docs)))"
    using u by simp
  from new run once call keys vecs show ?thesis by blast
qed

theorem deduplication_by_url_witness:
  "map urlKey (rag_documents (rag_run rag_constructor
      [AddDocuments (\<lambda>i. ''T'') [article_pets, article_pets_again, article_stocks],
       AddDocuments (\<lambda>i. ''T'') [article_pets_again, article_stocks]])) = [''u1'', [], []] \<and>
   rag_urlSet (rag_run rag_constructor
      [AddDocuments (\<lambda>i. ''T'') [article_pets, article_pets_again, article_stocks],
       AddDocuments (\<lambda>i. ''T'') [article_pets_again, article_stocks]]) = {''u1''}"
proof -
  have keys: "map urlKey (rag_documents (rag_run rag_constructor
      [AddDocuments (\<lambda>i. ''T'') [article_pets, article_pets_again, article_stocks],
       AddDocuments (\<lambda>i. ''T'') [article_pets_again, article_stocks]])) = [''u1'', [], []]"
    by (simp add: rag_run_def rag_constructor_def rag_addDocuments_def rag_initialize_def
        rag_newDocs_def rag_newDoc_def dedup_step_pair index_step_def urlKey_def trim_def
        is_space_def article_pets_def article_pets_again_def article_stocks_def or_else_def
        upt_rec)
  from deduplication_by_url [of _ _ _ "[AddDocuments (\<lambda>i. ''T'') [article_pets, article_pets_again, article_stocks],
       AddDocuments (\<lambda>i. ''T'') [article_pets_again, article_stocks]]"]
  have "rag_urlSet (rag_run rag_constructor
      [AddDocuments (\<lambda>i. ''T'') [article_pets, article_pets_again, article_stocks],
       AddDocuments (\<lambda>i. ''T'') [article_pets_again, article_stocks]]) =
     set (nonempty_keys (rag_documents (rag_run rag_constructor
      [AddDocuments (\<lambda>i. ''T'') [article_pets, article_pets_again, article_stocks],
       AddDocuments (\<lambda>i. ''T'') [article_pets_again, article_stocks]])))"
    by blast
  then show ?thesis
    using keys by (simp add: nonempty_keys_def)
qed

theorem same_url_stored_twice:
  "trim (or_else (in_url article_pets) []) = ''u1'' \<and>
   trim (or_else (in_url article_pets_again) []) = ''u1'' \<and>
   map (\<lambda>d. url (metadata d))
     (documents (snd (addDocuments (\<lambda>i. ''T'') constructor [article_pets, article_pets_again]))) =
     [''u1'', '' u1 ''] \<and>
   length (documents (snd (addDocuments (\<lambda>i. ''T'') constructor [article_pets, article_pets_again]))) = 2"
proof -
  have t: "trim (or_else (in_url article_pets) []) = ''u1''"
    "trim (or_else (in_url article_pets_again) []) = ''u1''"
    by (simp_all add: trim_def is_space_def article_pets_def article_pets_again_def or_else_def)
  have a: "accepted article_pets" "accepted article_pets_again"
    by (simp_all add: accepted_def falsy_def article_pets_def article_pets_again_def)
  have u: "map (\<lambda>d. url (metadata d))
     (documents (snd (addDocuments (\<lambda>i. ''T'') constructor [article_pets, article_pets_again]))) =
     [''u1'', '' u1 '']"
  proof -
    have o: "or_else (in_url article_pets) [] = ''u1''"
      "or_else (in_url article_pets_again) [] = '' u1 ''"
      by (simp_all add: article_pets_def article_pets_again_def or_else_def)
    show ?thesis
      unfolding addDocuments_def snd_conv add_loop_urls
      by (simp add: a o constructor_def initialize_def)
  qed
  have l: "length (documents (snd (addDocuments (\<lambda>i. ''T'') constructor
      [article_pets, article_pets_again]))) = 2"
    using arg_cong [OF u, of length] by simp
  from t u l show ?thesis by blast
qed

text \<open>
  C8. \<^verbatim>\<open>addDocuments\<close> of rag.new.js returns \<^verbatim>\<open>true\<close>, not a count; the store grows by
  the number of input documents that have a text and a title. \<^verbatim>\<open>addDocuments\<close> of
  utils/rag returns nothing; its store grows by the number of new documents with
  an empty trimmed URL plus the number of distinct non-empty trimmed URLs among the
  new documents that are not yet in the URL set, which is at most the input count.
\<close>

theorem addDocuments_result_and_growth:
  "fst (addDocuments clock s docs) = True \<and>
   length (documents (snd (addDocuments clock s docs))) =
     length (documents s) + length (filter accepted docs) \<and>
   length (rag_documents (rag_addDocuments clock r docs)) =
     length (rag_documents r) + length (filter (\<lambda>d. urlKey d = []) (rag_newDocs clock docs))
       + card (set (nonempty_keys (rag_newDocs clock docs)) - rag_urlSet r) \<and>
   length (rag_documents (rag_addDocuments clock r docs)) \<le> length (rag_documents r) + length docs"
proof -
  have a: "length (documents (snd (addDocuments clock s docs))) =
     length (documents s) + length (filter accepted docs)"
    by (simp add: addDocuments_def add_loop_count)
  obtain toIndex seen
    where f: "foldl dedup_step ([], rag_urlSet r) (rag_newDocs clock docs) = (toIndex, seen)"
    using rag_addDocuments_split by blast
  have b: "length (rag_documents (rag_addDocuments clock r docs)) =
     length (rag_documents r) + length (filter (\<lambda>d. urlKey d = []) (rag_newDocs clock docs))
       + card (set (nonempty_keys (rag_newDocs clock docs)) - rag_urlSet r)"
    using rag_addDocuments_unfold [OF f] dedup_fold_count [OF f] by simp
  have "length (filter (\<lambda>d. urlKey d = []) (rag_newDocs clock docs))
      + card (set (nonempty_keys (rag_newDocs clock docs)) - rag_urlSet r)
      \<le> length (filter (\<lambda>d. urlKey d = []) (rag_newDocs clock docs))
        + length (filter (\<lambda>d. urlKey d \<noteq> []) (rag_newDocs clock docs))"
  proof -
    have "card (set (nonempty_keys (rag_newDocs clock docs)) - rag_urlSet r)
        \<le> card (set (nonempty_keys (rag_newDocs clock docs)))"
      by (rule card_mono) auto
    also have "\<dots> \<le> length (nonempty_keys (rag_newDocs clock docs))"
      by (rule card_length)
    also have "\<dots> = length (filter (\<lambda>d. urlKey d \<noteq> []) (rag_newDocs clock docs))"
      by (simp add: nonempty_keys_def filter_map comp_def)
    finally show ?thesis by simp
  qed
  also have "\<dots> = length (rag_newDocs clock docs)"
    using sum_length_filter_compl [of "\<lambda>d. urlKey d = []" "rag_newDocs clock docs"] by simp
  also have "\<dots> = length docs"
    by (simp add: rag_newDocs_def)
  finally have c: "length (rag_documents (rag_addDocuments clock r docs)) \<le> length (rag_documents r) + length docs"
    using b by simp
  from a b c show ?thesis
    by (simp add: addDocuments_def)
qed

theorem addDocuments_returns_true:
  "addDocuments (\<lambda>i. ''T'') constructor [article_pets, article_stocks] = (True, example_store) \<and>
   length (documents example_store) = 2"
  by (simp add: example_store_built) (simp add: example_store_def)

section \<open>The no-data conditions\<close>

lemma rag_no_data:
  assumes "vs useFallback queryText k = None"
    and "rag_documents r = [] \<or> tokenize queryText = [] \<or>
      list_all (\<lambda>c. \<not> positive (score c))
        (scores_of (getWordFreq (tokenize queryText)) (rag_documentVectors r))"
  shows "rag_query engine vs gen r queryText k useFallback =
      (if rag_documents r = [] then rag_no_articles
       else if tokenize queryText = [] then rag_not_understood else rag_no_relevant,
       rag_initialize r, [Invoked useFallback])"
proof -
  have top: "rag_documents r \<noteq> [] \<Longrightarrow> tokenize queryText \<noteq> [] \<Longrightarrow>
      top_k engine k (scores_of (getWordFreq (tokenize queryText)) (rag_documentVectors r)) = []"
    using assms(2) by (auto dest: nonpositive_scores_top_k)
  have "rag_retrieve engine vs (rag_initialize r) queryText k useFallback =
      Inl (if rag_documents r = [] then rag_no_articles
       else if tokenize queryText = [] then rag_not_understood else rag_no_relevant)"
    using assms(1) top by (auto simp: rag_retrieve_def rag_lexical_def)
  then show ?thesis
    by (cases useFallback) (simp_all add: rag_query_True rag_query_False)
qed

text \<open>
  C7. When the store is empty, or the query text has no token, or no stored vector
  scores above 0, \<^verbatim>\<open>query\<close> returns one of its three canned answers with an empty
  \<open>sources\<close> list and no debug record (so not the error answer); it neither calls
  the generation service nor runs the fallback generator. The same holds for
  \<^verbatim>\<open>query\<close> of utils/rag on its in-memory path, that is when the vector store gives
  nothing.
\<close>

theorem no_data_canned_response:
  assumes "documents s = [] \<or> tokenize queryText = [] \<or>
    list_all (\<lambda>c. \<not> positive (score c))
      (scores_of (getWordFreq (tokenize queryText)) (documentVectors s))"
  shows "query engine gen s queryText k useFallback =
      (if documents s = [] then no_articles
       else if tokenize queryText = [] then not_understood else no_relevant,
       initialize s, [Invoked useFallback]) \<and>
    sources (fst (query engine gen s queryText k useFallback)) = [] \<and>
    debug (fst (query engine gen s queryText k useFallback)) = None \<and>
    generate_calls (events (query engine gen s queryText k useFallback)) = [] \<and>
    fallback_runs (events (query engine gen s queryText k useFallback)) = 0 \<and>
    (vs useFallback queryText k = None \<and>
     (rag_documents r = [] \<or> tokenize queryText = [] \<or>
      list_all (\<lambda>c. \<not> positive (score c))
        (scores_of (getWordFreq (tokenize queryText)) (rag_documentVectors r))) \<longrightarrow>
     rag_query engine vs gen r queryText k useFallback =
       (if rag_documents r = [] then rag_no_articles
        else if tokenize queryText = [] then rag_not_understood else rag_no_relevant,
        rag_initialize r, [Invoked useFallback]) \<and>
     rag_sources (fst (rag_query engine vs gen r queryText k useFallback)) = [] \<and>
     rag_debug (fst (rag_query engine vs gen r queryText k useFallback)) = None)"
proof -
  have top: "documents s \<noteq> [] \<Longrightarrow> tokenize queryText \<noteq> [] \<Longrightarrow> topK_of engine (initialize s) queryText k = []"
    using assms by (auto simp: topK_of_def dest: nonpositive_scores_top_k)
  have q: "query engine gen s queryText k useFallback =
      (if documents s = [] then no_articles
       else if tokenize queryText = [] then not_understood else no_relevant,
       initialize s, [Invoked useFallback])"
    using top by (cases useFallback) (auto simp: query_True query_False)
  have new: "query engine gen s queryText k useFallback =
      (if documents s = [] then no_articles
       else if tokenize queryText = [] then not_understood else no_relevant,
       initialize s, [Invoked useFallback]) \<and>
    sources (fst (query engine gen s queryText k useFallback)) = [] \<and>
    debug (fst (query engine gen s queryText k useFallback)) = None \<and>
    generate_calls (events (query engine gen s queryText k useFallback)) = [] \<and>
    fallback_runs (events (query engine gen s queryText k useFallback)) = 0"
    unfolding q by (simp add: events_def no_articles_def not_understood_def no_relevant_def)
  have old: "vs useFallback queryText k = None \<and>
     (rag_documents r = [] \<or> tokenize queryText = [] \<or>
      list_all (\<lambda>c. \<not> positive (score c))
        (scores_of (getWordFreq (tokenize queryText)) (rag_documentVectors r))) \<longrightarrow>
     rag_query engine vs gen r queryText k useFallback =
       (if rag_documents r = [] then rag_no_articles
        else if tokenize queryText = [] then rag_not_understood else rag_no_relevant,
        rag_initialize r, [Invoked useFallback]) \<and>
     rag_sources (fst (rag_query engine vs gen r queryText k useFallback)) = [] \<and>
     rag_debug (fst (rag_query engine vs gen r queryText k useFallback)) = None"
  proof (intro impI, elim conjE)
    assume a: "vs useFallback queryText k = None"
      and b: "rag_documents r = [] \<or> tokenize queryText = [] \<or>
        list_all (\<lambda>c. \<not> positive (score c))
          (scores_of (getWordFreq (tokenize queryText)) (rag_documentVectors r))"
    show "rag_query engine vs gen r queryText k useFallback =
       (if rag_documents r = [] then rag_no_articles
        else if tokenize queryText = [] then rag_not_understood else rag_no_relevant,
        rag_initialize r, [Invoked useFallback]) \<and>
     rag_sources (fst (rag_query engine vs gen r queryText k useFallback)) = [] \<and>
     rag_debug (fst (rag_query engine vs gen r queryText k useFallback)) = None"
      unfolding rag_no_data [where vs = vs and r = r and gen = gen and engine = engine, OF a b]
      by (simp add: rag_no_articles_def rag_not_understood_def rag_no_relevant_def)
  qed
  from new old show ?thesis by blast
qed

lemma tokenize_constructor: "tokenize ''constructor'' = [''constructor'']"
  by (simp add: string_eval)

lemma example_scores_constructor:
  "scores_of (getWordFreq [''constructor'']) (documentVectors example_store) =
     [\<lparr>index = 0, score = NaN\<rparr>, \<lparr>index = 1, score = NaN\<rparr>]"
  by (simp add: example_store_def scores_of_def freq_eval double_eval)

theorem no_data_canned_response_witness:
  "fst (query rev service_up constructor ''Pets?'' 3 False) = no_articles \<and>
   fst (query rev service_up example_store ''?!'' 3 False) = not_understood \<and>
   fst (query rev service_up example_store ''gold'' 3 True) = no_relevant \<and>
   events (query rev service_up example_store ''gold'' 3 True) = [Invoked True] \<and>
   fst (query rev service_up example_store ''constructor'' 3 True) = no_relevant \<and>
   fst (rag_query rev no_vector_store service_up rag_constructor ''Pets?'' 3 False) = rag_no_articles \<and>
   fst (rag_query rev no_vector_store service_up rag_example_store ''?!'' 3 False) = rag_not_understood \<and>
   fst (rag_query rev no_vector_store service_up rag_example_store ''gold'' 3 False) = rag_no_relevant"
proof -
  have a: "documents constructor = []" "rag_documents rag_constructor = []"
    by (simp_all add: constructor_def rag_constructor_def)
  have b: "tokenize ''?!'' = []"
    by (rule tokenize_punctuation)
  have c: "list_all (\<lambda>c. \<not> positive (score c))
      (scores_of (getWordFreq (tokenize ''gold'')) (documentVectors example_store))"
    by (simp add: tokenize_gold example_scores_gold)
  have d: "no_vector_store False q 3 = None" for q
    by (simp add: no_vector_store_def)
  have e: "list_all (\<lambda>c. \<not> positive (score c))
      (scores_of (getWordFreq (tokenize ''constructor'')) (documentVectors example_store))"
    by (simp add: tokenize_constructor example_scores_constructor)
  show ?thesis
    using no_data_canned_response [where s = constructor and queryText = "''Pets?''"
        and vs = no_vector_store and useFallback = False and k = 3 and r = rag_constructor
        and gen = service_up and engine = rev] a
      no_data_canned_response [where s = example_store and queryText = "''?!''"
        and vs = no_vector_store and useFallback = False and k = 3 and r = rag_example_store
        and gen = service_up and engine = rev] b
      no_data_canned_response [where s = example_store and queryText = "''gold''"
        and vs = no_vector_store and useFallback = True and k = 3 and r = rag_example_store
        and gen = service_up and engine = rev]
      no_data_canned_response [where s = example_store and queryText = "''gold''"
        and vs = no_vector_store and useFallback = False and k = 3 and r = rag_example_store
        and gen = service_up and engine = rev] c d
      no_data_canned_response [where s = example_store and queryText = "''constructor''"
        and vs = no_vector_store and useFallback = True and k = 3 and r = rag_example_store
        and gen = service_up and engine = rev] e
    by (simp add: tokenize_gold tokenize_constructor events_def)
qed

end
